theory Spec2Isabelle
  imports Main "HOL-Library.Word"
begin

section \<open>The contract HFTRiskAnalysis\_FHE: data model\<close>

text \<open>
  The Solidity types: \<open>uint256\<close>, \<open>uint32\<close> and \<open>address\<close> are machine words,
  \<open>bytes\<close> is a list of octets.
\<close>

type_synonym uint256 = "256 word"
type_synonym uint32 = "32 word"
type_synonym address = "160 word"
type_synonym bytes = "8 word list"

text \<open>
  Modelled from the spec: the library \<open>@fhevm/solidity/lib/FHE.sol\<close> (the Homomorphic
  Engine) is an external import. A value of type \<open>euint32\<close> is an opaque ciphertext
  handle; the model keeps a handle as the expression that built it: a handle supplied
  by a caller (\<open>Handle\<close>, a \<open>bytes32\<close>; \<open>Handle 0\<close> is the zero value of the type) or
  the result of \<open>FHE.asEuint32\<close>, \<open>FHE.add\<close>, \<open>FHE.sub\<close>, \<open>FHE.mul\<close>, \<open>FHE.div\<close>.
  \<open>FHE.toBytes32\<close> unwraps a handle and is the identity here.
\<close>

datatype euint32 =
    Handle uint256
  | FHE_asEuint32 uint32
  | FHE_add euint32 euint32
  | FHE_sub euint32 euint32
  | FHE_mul euint32 euint32
  | FHE_div euint32 euint32

text \<open>
  Modelled from the spec: the plaintext a handle stands for, under the plaintexts \<open>key\<close>
  of the handles supplied from outside. The arithmetic is that of \<open>uint32\<close>; the
  contract only ever divides by the constants 100 and 5.
\<close>

fun plaintext :: "(uint256 \<Rightarrow> uint32) \<Rightarrow> euint32 \<Rightarrow> uint32" where
  "plaintext key (Handle h) = key h"
| "plaintext key (FHE_asEuint32 v) = v"
| "plaintext key (FHE_add a b) = plaintext key a + plaintext key b"
| "plaintext key (FHE_sub a b) = plaintext key a - plaintext key b"
| "plaintext key (FHE_mul a b) = plaintext key a * plaintext key b"
| "plaintext key (FHE_div a b) = plaintext key a div plaintext key b"

record EncryptedOrderBook =
  exchangeId :: uint256
  encryptedBidOrders :: euint32
  encryptedAskOrders :: euint32
  encryptedOrderFlow :: euint32
  encryptedVolatility :: euint32
  timestamp :: uint256
  exchange :: address

record RiskAssessment =
  encryptedLiquidityImpact :: euint32
  encryptedFlashCrashRisk :: euint32
  encryptedMarketInstability :: euint32

record DecryptedAssessment =
  liquidityImpact :: uint32
  flashCrashRisk :: uint32
  marketInstability :: uint32
  isRevealed :: bool

datatype event =
    OrderBookSubmitted uint256 address uint256
  | RiskAnalysisCompleted uint256
  | AssessmentDecrypted uint256

text \<open>
  The storage of the contract. A Solidity mapping is kept as a partial map, so that a
  record that was written can be told from one that never was; reading goes through the
  accessors below, which give the zero value of the type for a key never written, as
  the EVM does. \<open>events\<close> is the log of the events the contract declares, oldest
  first.

  Modelled from the spec: \<open>requestedHandles\<close> is the PendingDecryptionRequest table of
  the engine. The FHE library is compiled into the contract and keeps it in the
  contract's storage: \<open>FHE.requestDecryption\<close> saves the requested handles under the
  request id it returns, and \<open>FHE.checkSignatures\<close> reverts for a request id without
  saved handles.
\<close>

record contract_state =
  exchangeCount :: uint256
  orderBooks :: "uint256 \<rightharpoonup> EncryptedOrderBook"
  riskAssessments :: "uint256 \<rightharpoonup> RiskAssessment"
  decryptedAssessments :: "uint256 \<rightharpoonup> DecryptedAssessment"
  requestToExchangeId :: "uint256 \<rightharpoonup> uint256"
  requestedHandles :: "uint256 \<rightharpoonup> euint32 list"
  events :: "event list"

definition initial_state :: contract_state where
  "initial_state = \<lparr> exchangeCount = 0, orderBooks = Map.empty, riskAssessments = Map.empty,
     decryptedAssessments = Map.empty, requestToExchangeId = Map.empty,
     requestedHandles = Map.empty, events = [] \<rparr>"

definition orderBook_at :: "contract_state \<Rightarrow> uint256 \<Rightarrow> EncryptedOrderBook" where
  "orderBook_at s eid = (case orderBooks s eid of
       Some ob \<Rightarrow> ob
     | None \<Rightarrow> \<lparr> exchangeId = 0, encryptedBidOrders = Handle 0, encryptedAskOrders = Handle 0,
                encryptedOrderFlow = Handle 0, encryptedVolatility = Handle 0, timestamp = 0,
                exchange = 0 \<rparr>)"

definition riskAssessment_at :: "contract_state \<Rightarrow> uint256 \<Rightarrow> RiskAssessment" where
  "riskAssessment_at s eid = (case riskAssessments s eid of
       Some ra \<Rightarrow> ra
     | None \<Rightarrow> \<lparr> encryptedLiquidityImpact = Handle 0, encryptedFlashCrashRisk = Handle 0,
                encryptedMarketInstability = Handle 0 \<rparr>)"

definition decryptedAssessment_at :: "contract_state \<Rightarrow> uint256 \<Rightarrow> DecryptedAssessment" where
  "decryptedAssessment_at s eid = (case decryptedAssessments s eid of
       Some d \<Rightarrow> d
     | None \<Rightarrow> \<lparr> liquidityImpact = 0, flashCrashRisk = 0, marketInstability = 0,
                isRevealed = False \<rparr>)"

definition requestToExchangeId_at :: "contract_state \<Rightarrow> uint256 \<Rightarrow> uint256" where
  "requestToExchangeId_at s rid = (case requestToExchangeId s rid of Some eid \<Rightarrow> eid | None \<Rightarrow> 0)"

definition requestedHandles_at :: "contract_state \<Rightarrow> uint256 \<Rightarrow> euint32 list" where
  "requestedHandles_at s rid = (case requestedHandles s rid of Some cts \<Rightarrow> cts | None \<Rightarrow> [])"

text \<open>
  A failed \<open>require\<close>, a reverting library call, a failing \<open>abi.decode\<close> and the checked
  addition of Solidity 0.8 all revert the transaction. The first three constructors are
  the three \<open>require\<close> messages of the contract: "Not exchange owner", "Already
  decrypted", "Invalid request". The next two are the reverts of \<open>FHE.checkSignatures\<close>:
  no handles are saved for the request id, or the signatures do not verify.
\<close>

datatype revert =
    Not_exchange_owner
  | Already_decrypted
  | Invalid_request
  | No_handle_found_for_request
  | Signatures_rejected
  | Decode_failed
  | Arithmetic_overflow

abbreviation Unauthorized :: revert where "Unauthorized \<equiv> Not_exchange_owner"
abbreviation AlreadyRevealed :: revert where "AlreadyRevealed \<equiv> Already_decrypted"
abbreviation UnknownRequest :: revert where "UnknownRequest \<equiv> Invalid_request"
abbreviation InvalidProof :: revert where "InvalidProof \<equiv> Signatures_rejected"
abbreviation MalformedCleartext :: revert where "MalformedCleartext \<equiv> Decode_failed"


text \<open>
  What a transaction gets from outside the contract: \<open>msg.sender\<close>, \<open>block.timestamp\<close>,
  the request id that \<open>FHE.requestDecryption\<close> returns in this transaction (the
  library numbers its requests itself and uses no id twice), and the verdict of the
  signature verification inside \<open>FHE.checkSignatures\<close>.
\<close>

record env =
  msg_sender :: address
  block_timestamp :: uint256
  requestDecryption_id :: uint256
  checkSignatures :: "uint256 \<Rightarrow> bytes \<Rightarrow> bytes \<Rightarrow> bool"

text \<open>The call that \<open>FHE.requestDecryption\<close> sends to the Decryption Oracle.\<close>

datatype selector = decryptAssessment_selector | decryptOrderBook_selector

record decryption_request =
  request_id :: uint256
  ciphertexts :: "euint32 list"
  callback :: selector

subsection \<open>\<open>abi.decode\<close> of a tuple of \<open>uint32\<close>\<close>

text \<open>
  Every component of the tuple takes one 32-byte big-endian word. The decoder reverts
  when the data is shorter than the tuple, and when a word does not fit \<open>uint32\<close>;
  bytes after the tuple are ignored. \<open>abi_encode_uint32\<close> is the encoding of one value.
\<close>

definition be_nat :: "bytes \<Rightarrow> nat" where
  "be_nat bs = foldl (\<lambda>acc b. acc * 256 + unat b) 0 bs"

fun be_bytes :: "nat \<Rightarrow> nat \<Rightarrow> bytes" where
  "be_bytes 0 n = []"
| "be_bytes (Suc k) n = be_bytes k (n div 256) @ [of_nat (n mod 256)]"

definition abi_encode_uint32 :: "uint32 \<Rightarrow> bytes" where
  "abi_encode_uint32 w = be_bytes 32 (unat w)"

definition decode_uint32 :: "bytes \<Rightarrow> uint32 option" where
  "decode_uint32 bs = (if be_nat bs < 2 ^ 32 then Some (of_nat (be_nat bs)) else None)"

fun abi_decode_uint32s :: "nat \<Rightarrow> bytes \<Rightarrow> uint32 list option" where
  "abi_decode_uint32s 0 bs = Some []"
| "abi_decode_uint32s (Suc n) bs =
     (if length bs < 32 then None
      else case decode_uint32 (take 32 bs) of
             None \<Rightarrow> None
           | Some w \<Rightarrow> map_option ((#) w) (abi_decode_uint32s n (drop 32 bs)))"

section \<open>The functions of the contract\<close>

text \<open>
  Modelled from the spec: the two library calls of the decryption protocol, as far as
  they touch the contract's storage. \<open>FHE_requestDecryption\<close> saves the handles under
  the new request id and returns the id; the library numbers its requests itself, so
  the id is one it has not used before. \<open>FHE_checkSignatures\<close> gives the revert, if
  any: it looks the saved handles up first and verifies the signatures second.
\<close>

definition FHE_requestDecryption ::
  "env \<Rightarrow> contract_state \<Rightarrow> euint32 list \<Rightarrow> contract_state \<times> uint256" where
  "FHE_requestDecryption e s cts =
     (let requestID = requestDecryption_id e
      in (s\<lparr>requestedHandles := (requestedHandles s)(requestID \<mapsto> cts)\<rparr>, requestID))"

definition FHE_checkSignatures ::
  "env \<Rightarrow> contract_state \<Rightarrow> uint256 \<Rightarrow> bytes \<Rightarrow> bytes \<Rightarrow> revert option" where
  "FHE_checkSignatures e s requestId cleartexts proof =
     (if requestedHandles_at s requestId = [] then Some No_handle_found_for_request
      else if \<not> checkSignatures e requestId cleartexts proof then Some Signatures_rejected
      else None)"

text \<open>\<open>exchangeCount += 1\<close> is checked arithmetic: it reverts at the largest \<open>uint256\<close>.\<close>

definition registerExchange :: "contract_state \<Rightarrow> address \<Rightarrow> revert + contract_state \<times> uint256" where
  "registerExchange s ex =
     (if exchangeCount s = - 1 then Inl Arithmetic_overflow
      else let s' = s\<lparr>exchangeCount := exchangeCount s + 1\<rparr> in Inr (s', exchangeCount s'))"

definition assessRisk :: "contract_state \<Rightarrow> uint256 \<Rightarrow> contract_state" where
  "assessRisk s eid =
     (let orderBook = orderBook_at s eid;
          s1 = s\<lparr>riskAssessments := (riskAssessments s)(eid \<mapsto>
                 \<lparr> encryptedLiquidityImpact =
                     FHE_div (FHE_sub (encryptedBidOrders orderBook) (encryptedAskOrders orderBook))
                             (FHE_asEuint32 100),
                   encryptedFlashCrashRisk =
                     FHE_mul (encryptedOrderFlow orderBook) (FHE_asEuint32 2),
                   encryptedMarketInstability =
                     FHE_add (FHE_mul (encryptedVolatility orderBook) (FHE_asEuint32 3))
                             (FHE_div (encryptedOrderFlow orderBook) (FHE_asEuint32 5)) \<rparr>)\<rparr>;
          s2 = s1\<lparr>decryptedAssessments := (decryptedAssessments s1)(eid \<mapsto>
                 \<lparr> liquidityImpact = 0, flashCrashRisk = 0, marketInstability = 0,
                   isRevealed = False \<rparr>)\<rparr>
      in s2\<lparr>events := events s2 @ [RiskAnalysisCompleted eid]\<rparr>)"

definition submitEncryptedOrderBook ::
  "env \<Rightarrow> contract_state \<Rightarrow> euint32 \<Rightarrow> euint32 \<Rightarrow> euint32 \<Rightarrow> euint32 \<Rightarrow> address
     \<Rightarrow> revert + contract_state" where
  "submitEncryptedOrderBook e s bid ask flow vol ex =
     (case registerExchange s ex of
        Inl r \<Rightarrow> Inl r
      | Inr (s1, eid) \<Rightarrow>
          let s2 = s1\<lparr>orderBooks := (orderBooks s1)(eid \<mapsto>
                     \<lparr> exchangeId = eid, encryptedBidOrders = bid, encryptedAskOrders = ask,
                       encryptedOrderFlow = flow, encryptedVolatility = vol,
                       timestamp = block_timestamp e, exchange = ex \<rparr>)\<rparr>;
              s3 = assessRisk s2 eid
          in Inr (s3\<lparr>events := events s3 @ [OrderBookSubmitted eid ex (block_timestamp e)]\<rparr>))"

definition requestAssessmentDecryption ::
  "env \<Rightarrow> contract_state \<Rightarrow> uint256 \<Rightarrow> revert + contract_state \<times> decryption_request" where
  "requestAssessmentDecryption e s eid =
     (if msg_sender e \<noteq> exchange (orderBook_at s eid) then Inl Not_exchange_owner
      else if isRevealed (decryptedAssessment_at s eid) then Inl Already_decrypted
      else let assessment = riskAssessment_at s eid;
               cts = [encryptedLiquidityImpact assessment, encryptedFlashCrashRisk assessment,
                      encryptedMarketInstability assessment];
               (s1, reqId) = FHE_requestDecryption e s cts
           in Inr (s1\<lparr>requestToExchangeId := (requestToExchangeId s1)(reqId \<mapsto> eid)\<rparr>,
                   \<lparr> request_id = reqId, ciphertexts = cts, callback = decryptAssessment_selector \<rparr>))"

definition decryptAssessment ::
  "env \<Rightarrow> contract_state \<Rightarrow> uint256 \<Rightarrow> bytes \<Rightarrow> bytes \<Rightarrow> revert + contract_state" where
  "decryptAssessment e s requestId cleartexts proof =
     (let eid = requestToExchangeId_at s requestId in
      if eid = 0 then Inl Invalid_request
      else if isRevealed (decryptedAssessment_at s eid) then Inl Already_decrypted
      else case FHE_checkSignatures e s requestId cleartexts proof of
        Some r \<Rightarrow> Inl r
      | None \<Rightarrow>
         (case abi_decode_uint32s 3 cleartexts of
             Some [li, crashRisk, instability] \<Rightarrow>
               let s1 = s\<lparr>decryptedAssessments := (decryptedAssessments s)(eid \<mapsto>
                          (decryptedAssessment_at s eid)\<lparr> liquidityImpact := li,
                             flashCrashRisk := crashRisk, marketInstability := instability,
                             isRevealed := True \<rparr>)\<rparr>
               in Inr (s1\<lparr>events := events s1 @ [AssessmentDecrypted eid]\<rparr>)
           | _ \<Rightarrow> Inl Decode_failed))"

definition requestOrderBookDecryption ::
  "env \<Rightarrow> contract_state \<Rightarrow> uint256 \<Rightarrow> revert + contract_state \<times> decryption_request" where
  "requestOrderBookDecryption e s eid =
     (if msg_sender e \<noteq> exchange (orderBook_at s eid) then Inl Not_exchange_owner
      else let orderBook = orderBook_at s eid;
               cts = [encryptedBidOrders orderBook, encryptedAskOrders orderBook,
                      encryptedOrderFlow orderBook, encryptedVolatility orderBook];
               (s1, reqId) = FHE_requestDecryption e s cts
           in Inr (s1, \<lparr> request_id = reqId, ciphertexts = cts,
                         callback = decryptOrderBook_selector \<rparr>))"

definition decryptOrderBook ::
  "env \<Rightarrow> contract_state \<Rightarrow> uint256 \<Rightarrow> bytes \<Rightarrow> bytes \<Rightarrow> revert + contract_state" where
  "decryptOrderBook e s requestId cleartexts proof =
     (case FHE_checkSignatures e s requestId cleartexts proof of
        Some r \<Rightarrow> Inl r
      | None \<Rightarrow>
         (case abi_decode_uint32s 4 cleartexts of
             Some [bids, asks, flow, volatility] \<Rightarrow> Inr s
           | _ \<Rightarrow> Inl Decode_failed))"

definition getExchangeCount :: "contract_state \<Rightarrow> uint256" where
  "getExchangeCount s = exchangeCount s"

section \<open>Transactions\<close>

text \<open>
  The public functions as calls. A transaction that reverts leaves the storage and the
  log as they were before it.
\<close>

datatype call =
    RegisterExchange address
  | SubmitEncryptedOrderBook euint32 euint32 euint32 euint32 address
  | RequestAssessmentDecryption uint256
  | DecryptAssessment uint256 bytes bytes
  | RequestOrderBookDecryption uint256
  | DecryptOrderBook uint256 bytes bytes
  | GetExchangeCount

fun exec :: "env \<Rightarrow> contract_state \<Rightarrow> call \<Rightarrow> revert + contract_state" where
  "exec e s (RegisterExchange ex) = map_sum id fst (registerExchange s ex)"
| "exec e s (SubmitEncryptedOrderBook bid ask flow vol ex) =
     submitEncryptedOrderBook e s bid ask flow vol ex"
| "exec e s (RequestAssessmentDecryption eid) = map_sum id fst (requestAssessmentDecryption e s eid)"
| "exec e s (DecryptAssessment requestId cleartexts proof) =
     decryptAssessment e s requestId cleartexts proof"
| "exec e s (RequestOrderBookDecryption eid) = map_sum id fst (requestOrderBookDecryption e s eid)"
| "exec e s (DecryptOrderBook requestId cleartexts proof) =
     decryptOrderBook e s requestId cleartexts proof"
| "exec e s GetExchangeCount = Inr s"

definition transact :: "env \<Rightarrow> contract_state \<Rightarrow> call \<Rightarrow> contract_state" where
  "transact e s c = (case exec e s c of Inl r \<Rightarrow> s | Inr s' \<Rightarrow> s')"

text \<open>
  The states the contract can be in: the state at deployment, and the state after any
  transaction from a reachable state. No transaction is sent by the zero address: it is
  the value of \<open>orderBooks[id].exchange\<close> for an id without an order book, and the
  EVM never has it as \<open>msg.sender\<close>. \<open>run\<close> applies a list of transactions in order.
\<close>

inductive reachable :: "contract_state \<Rightarrow> bool" where
  reachable_initial: "reachable initial_state"
| reachable_transact: "reachable s \<Longrightarrow> msg_sender e \<noteq> 0 \<Longrightarrow> reachable (transact e s c)"

fun run :: "contract_state \<Rightarrow> (env \<times> call) list \<Rightarrow> contract_state" where
  "run s [] = s"
| "run s ((e, c) # tr) = run (transact e s c) tr"

section \<open>Observations on states and the example run\<close>

text \<open>The exchange ids announced by the \<open>OrderBookSubmitted\<close> events of a log, oldest first.\<close>

fun submitted_ids :: "event list \<Rightarrow> uint256 list" where
  "submitted_ids [] = []"
| "submitted_ids (OrderBookSubmitted eid ex ts # evs) = eid # submitted_ids evs"
| "submitted_ids (ev # evs) = submitted_ids evs"

text \<open>
  The invariant of the storage: the stored order books are those announced in the log, in
  increasing order of their ids; no id is zero or above the counter; the three record
  tables have the same keys; every recorded request belongs to a stored order book and
  has its handles saved by the library.
\<close>

definition consistent :: "contract_state \<Rightarrow> bool" where
  "consistent s \<longleftrightarrow>
     set (submitted_ids (events s)) = dom (orderBooks s) \<and>
     sorted_wrt (<) (submitted_ids (events s)) \<and>
     card (dom (orderBooks s)) \<le> unat (exchangeCount s) \<and>
     (\<forall>eid \<in> dom (orderBooks s). eid \<noteq> 0 \<and> eid \<le> exchangeCount s) \<and>
     dom (riskAssessments s) = dom (orderBooks s) \<and>
     dom (decryptedAssessments s) = dom (orderBooks s) \<and>
     ran (requestToExchangeId s) \<subseteq> dom (orderBooks s) \<and>
     (\<forall>rid \<in> dom (requestToExchangeId s). requestedHandles_at s rid \<noteq> [])"

text \<open>
  Modelled from the spec: the Decryption Oracle is an external service. It answers a
  request with the plaintexts of the requested handles, ABI-encoded in the order of the
  request.
\<close>

definition oracle_cleartexts :: "(uint256 \<Rightarrow> uint32) \<Rightarrow> euint32 list \<Rightarrow> bytes" where
  "oracle_cleartexts key cts = concat (map (\<lambda>ct. abi_encode_uint32 (plaintext key ct)) cts)"

text \<open>
  The end-to-end scenario of the specification: the exchange at address 10 submits an
  order book whose four handles stand for bid 500, ask 300, flow 50 and volatility 20,
  and asks for the decryption of the assessment; the engine hands out request id 7; the
  oracle's relayer (address 99) calls back. \<open>accepting\<close> says whether
  \<open>FHE.checkSignatures\<close> accepts in that transaction.
\<close>

definition env_of :: "address \<Rightarrow> uint256 \<Rightarrow> bool \<Rightarrow> env" where
  "env_of sender rid accepting =
     \<lparr> msg_sender = sender, block_timestamp = 1000, requestDecryption_id = rid,
       checkSignatures = (\<lambda>requestId cleartexts proof. accepting) \<rparr>"

definition example_key :: "uint256 \<Rightarrow> uint32" where
  "example_key h = (if h = 11 then 500 else if h = 12 then 300 else if h = 13 then 50
                    else if h = 14 then 20 else 0)"

definition example_assessment :: RiskAssessment where
  "example_assessment =
     \<lparr> encryptedLiquidityImpact = FHE_div (FHE_sub (Handle 11) (Handle 12)) (FHE_asEuint32 100),
       encryptedFlashCrashRisk = FHE_mul (Handle 13) (FHE_asEuint32 2),
       encryptedMarketInstability =
         FHE_add (FHE_mul (Handle 14) (FHE_asEuint32 3)) (FHE_div (Handle 13) (FHE_asEuint32 5)) \<rparr>"

definition example_cleartexts :: bytes where
  "example_cleartexts = oracle_cleartexts example_key
     [encryptedLiquidityImpact example_assessment, encryptedFlashCrashRisk example_assessment,
      encryptedMarketInstability example_assessment]"

definition submitted_state :: contract_state where
  "submitted_state = transact (env_of 10 0 True) initial_state
     (SubmitEncryptedOrderBook (Handle 11) (Handle 12) (Handle 13) (Handle 14) 10)"

definition requested_state :: contract_state where
  "requested_state = transact (env_of 10 7 True) submitted_state (RequestAssessmentDecryption 1)"

definition requested_twice_state :: contract_state where
  "requested_twice_state = transact (env_of 10 8 True) requested_state (RequestAssessmentDecryption 1)"

definition revealed_state :: contract_state where
  "revealed_state = transact (env_of 99 0 True) requested_state
     (DecryptAssessment 7 example_cleartexts [])"

section \<open>Machine arithmetic and the ABI codec\<close>

lemma succ_neq_0: "(c::uint256) \<noteq> - 1 \<Longrightarrow> c + 1 \<noteq> 0"
  by (simp add: eq_neg_iff_add_eq_0)

lemma unat_succ: "(c::uint256) \<noteq> - 1 \<Longrightarrow> unat (c + 1) = Suc (unat c)"
  using unatSuc[of c] succ_neq_0[of c] by (simp add: add.commute)

lemma less_succ: "(c::uint256) \<noteq> - 1 \<Longrightarrow> c < c + 1"
  by (simp add: word_less_nat_alt unat_succ)

lemma le_less_succ: "(c::uint256) \<noteq> - 1 \<Longrightarrow> x \<le> c \<Longrightarrow> x < c + 1"
  using less_succ[of c] by simp

lemma submitted_ids_append: "submitted_ids (xs @ ys) = submitted_ids xs @ submitted_ids ys"
  by (induction xs rule: submitted_ids.induct) auto

lemma be_nat_snoc: "be_nat (bs @ [b]) = be_nat bs * 256 + unat b"
  by (simp add: be_nat_def)

lemma be_nat_be_bytes: "be_nat (be_bytes k n) = n mod 256 ^ k"
proof (induction k arbitrary: n)
  case 0
  show ?case by (simp add: be_nat_def)
next
  case (Suc k)
  have "unat (of_nat (n mod 256) :: 8 word) = n mod 256"
    by (simp add: unat_of_nat)
  then show ?case using Suc[of "n div 256"]
    by (simp add: be_nat_snoc mod_mult2_eq)
qed

lemma length_be_bytes: "length (be_bytes k n) = k"
  by (induction k arbitrary: n) auto

lemma length_abi_encode_uint32: "length (abi_encode_uint32 w) = 32"
  by (simp add: abi_encode_uint32_def length_be_bytes)

lemma decode_uint32_encode: "decode_uint32 (abi_encode_uint32 w) = Some w"
proof -
  have small: "unat w < 2 ^ 32" using unsigned_less[of w, where 'a = nat] by simp
  moreover have "(2::nat) ^ 32 \<le> 256 ^ 32" by simp
  ultimately have "unat w mod 256 ^ 32 = unat w" by simp
  then show ?thesis using small
    by (simp add: decode_uint32_def abi_encode_uint32_def be_nat_be_bytes)
qed

lemma abi_decode_oracle_cleartexts:
  "abi_decode_uint32s (length cts) (oracle_cleartexts key cts @ rest) = Some (map (plaintext key) cts)"
proof (induction cts)
  case Nil
  show ?case by (simp add: oracle_cleartexts_def)
next
  case (Cons ct cts)
  then show ?case
    by (simp add: oracle_cleartexts_def length_abi_encode_uint32 decode_uint32_encode)
qed

section \<open>What a successful call does\<close>

lemma registerExchange_Inr:
  "registerExchange s ex = Inr (s', r) \<longleftrightarrow>
     exchangeCount s \<noteq> - 1 \<and> s' = s\<lparr>exchangeCount := exchangeCount s + 1\<rparr> \<and> r = exchangeCount s + 1"
  by (auto simp: registerExchange_def Let_def)

lemma submit_Inr:
  assumes "submitEncryptedOrderBook e s bid ask flow vol ex = Inr s'"
  shows "exchangeCount s \<noteq> - 1"
    and "exchangeCount s' = exchangeCount s + 1"
    and "orderBooks s' = (orderBooks s)(exchangeCount s + 1 \<mapsto>
           \<lparr> exchangeId = exchangeCount s + 1, encryptedBidOrders = bid, encryptedAskOrders = ask,
             encryptedOrderFlow = flow, encryptedVolatility = vol,
             timestamp = block_timestamp e, exchange = ex \<rparr>)"
    and "riskAssessments s' = (riskAssessments s)(exchangeCount s + 1 \<mapsto>
           \<lparr> encryptedLiquidityImpact = FHE_div (FHE_sub bid ask) (FHE_asEuint32 100),
             encryptedFlashCrashRisk = FHE_mul flow (FHE_asEuint32 2),
             encryptedMarketInstability =
               FHE_add (FHE_mul vol (FHE_asEuint32 3)) (FHE_div flow (FHE_asEuint32 5)) \<rparr>)"
    and "decryptedAssessments s' = (decryptedAssessments s)(exchangeCount s + 1 \<mapsto>
           \<lparr> liquidityImpact = 0, flashCrashRisk = 0, marketInstability = 0, isRevealed = False \<rparr>)"
    and "requestToExchangeId s' = requestToExchangeId s"
    and "events s' = events s @ [RiskAnalysisCompleted (exchangeCount s + 1),
           OrderBookSubmitted (exchangeCount s + 1) ex (block_timestamp e)]"
    and "requestedHandles s' = requestedHandles s"
  using assms
  by (auto simp: submitEncryptedOrderBook_def registerExchange_def assessRisk_def orderBook_at_def
      Let_def split: if_splits)

lemma requestAssessment_Inr:
  assumes "requestAssessmentDecryption e s eid = Inr (s', req)"
  shows "msg_sender e = exchange (orderBook_at s eid)"
    and "\<not> isRevealed (decryptedAssessment_at s eid)"
    and "s' = s\<lparr>requestedHandles := (requestedHandles s)(requestDecryption_id e \<mapsto>
                 [encryptedLiquidityImpact (riskAssessment_at s eid),
                  encryptedFlashCrashRisk (riskAssessment_at s eid),
                  encryptedMarketInstability (riskAssessment_at s eid)]),
               requestToExchangeId := (requestToExchangeId s)(requestDecryption_id e \<mapsto> eid)\<rparr>"
    and "req = \<lparr> request_id = requestDecryption_id e,
           ciphertexts = [encryptedLiquidityImpact (riskAssessment_at s eid),
                          encryptedFlashCrashRisk (riskAssessment_at s eid),
                          encryptedMarketInstability (riskAssessment_at s eid)],
           callback = decryptAssessment_selector \<rparr>"
  using assms
  by (auto simp: requestAssessmentDecryption_def FHE_requestDecryption_def Let_def
      split: if_splits)

lemma DecryptedAssessment_overwrite:
  "d\<lparr> liquidityImpact := li, flashCrashRisk := cr, marketInstability := ins, isRevealed := r \<rparr> =
     \<lparr> liquidityImpact = li, flashCrashRisk = cr, marketInstability = ins, isRevealed = r \<rparr>"
  by (cases d) simp

lemma decryptAssessment_Inr:
  assumes "decryptAssessment e s rid cleartexts pf = Inr s'"
  shows "\<exists>li cr ins.
      requestToExchangeId_at s rid \<noteq> 0 \<and>
      \<not> isRevealed (decryptedAssessment_at s (requestToExchangeId_at s rid)) \<and>
      requestedHandles_at s rid \<noteq> [] \<and>
      checkSignatures e rid cleartexts pf \<and>
      abi_decode_uint32s 3 cleartexts = Some [li, cr, ins] \<and>
      s' = s\<lparr>decryptedAssessments := (decryptedAssessments s)(requestToExchangeId_at s rid \<mapsto>
               \<lparr> liquidityImpact = li, flashCrashRisk = cr, marketInstability = ins,
                 isRevealed = True \<rparr>),
             events := events s @ [AssessmentDecrypted (requestToExchangeId_at s rid)]\<rparr>"
  using assms
  by (auto simp: decryptAssessment_def FHE_checkSignatures_def Let_def
      DecryptedAssessment_overwrite split: if_splits option.splits list.splits)

lemma requestOrderBook_Inr:
  "requestOrderBookDecryption e s eid = Inr (s', req) \<Longrightarrow>
     s' = s\<lparr>requestedHandles := (requestedHandles s)(requestDecryption_id e \<mapsto>
            [encryptedBidOrders (orderBook_at s eid), encryptedAskOrders (orderBook_at s eid),
             encryptedOrderFlow (orderBook_at s eid), encryptedVolatility (orderBook_at s eid)])\<rparr>"
  by (auto simp: requestOrderBookDecryption_def FHE_requestDecryption_def Let_def
      split: if_splits)

lemma decryptOrderBook_Inr:
  "decryptOrderBook e s rid cleartexts pf = Inr s' \<Longrightarrow> s' = s"
  by (auto simp: decryptOrderBook_def split: if_splits option.splits list.splits)

lemma requestedHandles_at_upd:
  "requestedHandles_at (s\<lparr>requestedHandles := (requestedHandles s)(rid \<mapsto> cts)\<rparr>) rid' =
     (if rid' = rid then cts else requestedHandles_at s rid')"
  by (simp add: requestedHandles_at_def)

section \<open>The invariant holds in every reachable state\<close>

lemma consistent_initial: "consistent initial_state"
  by (simp add: consistent_def initial_state_def)

lemma consistentD:
  assumes "consistent s"
  shows "set (submitted_ids (events s)) = dom (orderBooks s)"
    and "sorted_wrt (<) (submitted_ids (events s))"
    and "card (dom (orderBooks s)) \<le> unat (exchangeCount s)"
    and "\<And>eid. eid \<in> dom (orderBooks s) \<Longrightarrow> eid \<noteq> 0 \<and> eid \<le> exchangeCount s"
    and "dom (riskAssessments s) = dom (orderBooks s)"
    and "dom (decryptedAssessments s) = dom (orderBooks s)"
    and "ran (requestToExchangeId s) \<subseteq> dom (orderBooks s)"
    and "\<And>rid. rid \<in> dom (requestToExchangeId s) \<Longrightarrow> requestedHandles_at s rid \<noteq> []"
  using assms by (simp_all add: consistent_def)

lemma consistent_register:
  assumes "consistent s" "registerExchange s ex = Inr (s', r)"
  shows "consistent s'"
proof -
  note c = consistentD[OF assms(1)]
  from assms(2) have n: "exchangeCount s \<noteq> - 1" and s': "s' = s\<lparr>exchangeCount := exchangeCount s + 1\<rparr>"
    by (simp_all add: registerExchange_Inr)
  have le: "eid \<noteq> 0 \<and> eid \<le> exchangeCount s + 1" if "eid \<in> dom (orderBooks s)" for eid
    using c(4)[OF that] le_less_succ[OF n, of eid] by simp
  have "card (dom (orderBooks s)) \<le> unat (exchangeCount s + 1)"
    using c(3) by (simp add: unat_succ[OF n])
  moreover have "\<forall>rid \<in> dom (requestToExchangeId s). requestedHandles_at s' rid \<noteq> []"
    using c(8) by (simp add: s' requestedHandles_at_def)
  ultimately show ?thesis
    unfolding consistent_def using c(1,2,5,6,7) le by (simp add: s')
qed

lemma consistent_submit:
  assumes "consistent s" "submitEncryptedOrderBook e s bid ask flow vol ex = Inr s'"
  shows "consistent s'"
proof -
  note c = consistentD[OF assms(1)]
  note f = submit_Inr[OF assms(2)]
  let ?n = "exchangeCount s + 1"
  have fin: "finite (dom (orderBooks s))" by (simp add: c(1)[symmetric])
  have below: "eid < ?n" if "eid \<in> dom (orderBooks s)" for eid
    using c(4)[OF that] le_less_succ[OF f(1), of eid] by simp
  have "card (insert ?n (dom (orderBooks s))) \<le> Suc (card (dom (orderBooks s)))"
    using fin by (simp add: card_insert_if)
  then have card: "card (dom (orderBooks s')) \<le> unat (exchangeCount s')"
    using c(3) by (simp add: f(2,3) unat_succ[OF f(1)])
  have ids: "submitted_ids (events s') = submitted_ids (events s) @ [?n]"
    by (simp add: f(7) submitted_ids_append)
  have d: "dom (orderBooks s') = insert ?n (dom (orderBooks s))"
    by (simp add: f(3))
  have 1: "set (submitted_ids (events s')) = dom (orderBooks s')"
    by (simp add: d ids c(1))
  have 2: "sorted_wrt (<) (submitted_ids (events s'))"
    using c(2) below by (simp add: ids sorted_wrt_append c(1))
  have "eid \<noteq> 0 \<and> eid \<le> ?n" if "eid \<in> insert ?n (dom (orderBooks s))" for eid
  proof (cases "eid = ?n")
    case True
    then show ?thesis using succ_neq_0[OF f(1)] by simp
  next
    case False
    then have "eid \<in> dom (orderBooks s)" using that by blast
    then show ?thesis using c(4)[of eid] below[of eid] by simp
  qed
  then have 4: "\<forall>eid \<in> dom (orderBooks s'). eid \<noteq> 0 \<and> eid \<le> exchangeCount s'"
    unfolding d f(2) by blast
  have 5: "dom (riskAssessments s') = dom (orderBooks s')"
    by (simp add: f(3,4) c(5))
  have 6: "dom (decryptedAssessments s') = dom (orderBooks s')"
    by (simp add: f(3,5) c(6))
  have 7: "ran (requestToExchangeId s') \<subseteq> dom (orderBooks s')"
    using c(7) by (auto simp: d f(6))
  have 8: "\<forall>rid \<in> dom (requestToExchangeId s'). requestedHandles_at s' rid \<noteq> []"
    using c(8) by (simp add: f(6,8) requestedHandles_at_def)
  show ?thesis
    unfolding consistent_def using 1 2 card 4 5 6 7 8 by blast
qed

lemma consistent_requestAssessment:
  assumes "consistent s" "msg_sender e \<noteq> 0" "requestAssessmentDecryption e s eid = Inr (s', req)"
  shows "consistent s'"
proof -
  note c = consistentD[OF assms(1)]
  note f = requestAssessment_Inr[OF assms(3)]
  have "eid \<in> dom (orderBooks s)"
    using f(1) assms(2) by (auto simp: orderBook_at_def split: option.splits)
  then have "ran ((requestToExchangeId s)(requestDecryption_id e \<mapsto> eid)) \<subseteq> dom (orderBooks s)"
    using c(7) by (auto simp: ran_def split: if_splits)
  moreover have "\<forall>rid \<in> dom (requestToExchangeId s'). requestedHandles_at s' rid \<noteq> []"
    using c(8) by (auto simp: f(3) requestedHandles_at_def)
  ultimately show ?thesis
    unfolding consistent_def using c(1,2,3,4,5,6) by (simp add: f(3))
qed

lemma consistent_decryptAssessment:
  assumes "consistent s" "decryptAssessment e s rid cleartexts pf = Inr s'"
  shows "consistent s'"
proof -
  note c = consistentD[OF assms(1)]
  from decryptAssessment_Inr[OF assms(2)] obtain li cr ins where
    nz: "requestToExchangeId_at s rid \<noteq> 0" and
    s': "s' = s\<lparr>decryptedAssessments := (decryptedAssessments s)(requestToExchangeId_at s rid \<mapsto>
               \<lparr> liquidityImpact = li, flashCrashRisk = cr, marketInstability = ins,
                 isRevealed = True \<rparr>),
             events := events s @ [AssessmentDecrypted (requestToExchangeId_at s rid)]\<rparr>"
    by blast
  have "requestToExchangeId_at s rid \<in> ran (requestToExchangeId s)"
    using nz by (auto simp: requestToExchangeId_at_def ran_def split: option.splits)
  then have "requestToExchangeId_at s rid \<in> dom (decryptedAssessments s)"
    using c(6,7) by blast
  then have "dom ((decryptedAssessments s)(requestToExchangeId_at s rid \<mapsto>
               \<lparr> liquidityImpact = li, flashCrashRisk = cr, marketInstability = ins,
                 isRevealed = True \<rparr>)) = dom (orderBooks s)"
    using c(6) by auto
  moreover have "\<forall>rid \<in> dom (requestToExchangeId s). requestedHandles_at s' rid \<noteq> []"
    using c(8) by (simp add: s' requestedHandles_at_def)
  ultimately show ?thesis
    unfolding consistent_def using c(1,2,3,4,5,7) by (simp add: s' submitted_ids_append)
qed

lemma consistent_requestOrderBook:
  assumes "consistent s" "requestOrderBookDecryption e s eid = Inr (s', req)"
  shows "consistent s'"
proof -
  note c = consistentD[OF assms(1)]
  note f = requestOrderBook_Inr[OF assms(2)]
  have "\<forall>rid \<in> dom (requestToExchangeId s). requestedHandles_at s' rid \<noteq> []"
    using c(8) by (auto simp: f requestedHandles_at_def)
  then show ?thesis
    unfolding consistent_def using c(1,2,3,4,5,6,7) by (simp add: f)
qed

lemma exec_consistent:
  assumes "consistent s" "msg_sender e \<noteq> 0" "exec e s c = Inr s'"
  shows "consistent s'"
proof (cases c)
  case (RegisterExchange ex)
  then obtain r where "registerExchange s ex = Inr (s', r)"
    using assms(3) by (cases "registerExchange s ex") auto
  then show ?thesis using assms(1) by (rule consistent_register[rotated])
next
  case (SubmitEncryptedOrderBook bid ask flow vol ex)
  then show ?thesis using assms(1,3) consistent_submit by simp
next
  case (RequestAssessmentDecryption eid)
  then obtain req where "requestAssessmentDecryption e s eid = Inr (s', req)"
    using assms(3) by (cases "requestAssessmentDecryption e s eid") auto
  then show ?thesis using assms(1,2) consistent_requestAssessment by blast
next
  case (DecryptAssessment rid cleartexts pf)
  then show ?thesis using assms(1,3) consistent_decryptAssessment by simp
next
  case (RequestOrderBookDecryption eid)
  then obtain req where "requestOrderBookDecryption e s eid = Inr (s', req)"
    using assms(3) by (cases "requestOrderBookDecryption e s eid") auto
  then show ?thesis using assms(1) consistent_requestOrderBook by blast
next
  case (DecryptOrderBook rid cleartexts pf)
  then show ?thesis using assms(1,3) decryptOrderBook_Inr[of e s rid cleartexts pf s'] by simp
next
  case GetExchangeCount
  then show ?thesis using assms(1,3) by simp
qed

lemma consistent_transact:
  "consistent s \<Longrightarrow> msg_sender e \<noteq> 0 \<Longrightarrow> consistent (transact e s c)"
  using exec_consistent[of s e c] by (cases "exec e s c") (simp_all add: transact_def)

lemma reachable_consistent: "reachable s \<Longrightarrow> consistent s"
  by (induction rule: reachable.induct) (simp_all add: consistent_initial consistent_transact)

section \<open>The example run, evaluated\<close>

lemma example_cleartexts_decode: "abi_decode_uint32s 3 example_cleartexts = Some [2, 100, 70]"
proof -
  let ?cts = "[encryptedLiquidityImpact example_assessment, encryptedFlashCrashRisk example_assessment,
      encryptedMarketInstability example_assessment]"
  have "abi_decode_uint32s (length ?cts) (oracle_cleartexts example_key ?cts @ []) =
      Some (map (plaintext example_key) ?cts)"
    by (rule abi_decode_oracle_cleartexts)
  moreover have "length ?cts = 3" by simp
  moreover have "map (plaintext example_key) ?cts = [2, 100, 70]"
    by (simp add: example_assessment_def example_key_def)
  ultimately show ?thesis by (simp only: example_cleartexts_def append_Nil2)
qed

lemma submitted_state_eq:
  "submitted_state =
     \<lparr> exchangeCount = 1,
       orderBooks = [1 \<mapsto> \<lparr> exchangeId = 1, encryptedBidOrders = Handle 11,
         encryptedAskOrders = Handle 12, encryptedOrderFlow = Handle 13,
         encryptedVolatility = Handle 14, timestamp = 1000, exchange = 10 \<rparr>],
       riskAssessments = [1 \<mapsto> example_assessment],
       decryptedAssessments = [1 \<mapsto> \<lparr> liquidityImpact = 0, flashCrashRisk = 0,
         marketInstability = 0, isRevealed = False \<rparr>],
       requestToExchangeId = Map.empty,
       requestedHandles = Map.empty,
       events = [RiskAnalysisCompleted 1, OrderBookSubmitted 1 10 1000] \<rparr>"
  by (simp add: submitted_state_def transact_def submitEncryptedOrderBook_def registerExchange_def
      assessRisk_def orderBook_at_def initial_state_def env_of_def example_assessment_def Let_def)

lemma requested_state_eq:
  "requested_state = submitted_state
     \<lparr>requestToExchangeId := [7 \<mapsto> 1],
      requestedHandles := [7 \<mapsto> [encryptedLiquidityImpact example_assessment,
         encryptedFlashCrashRisk example_assessment, encryptedMarketInstability example_assessment]]\<rparr>"
  by (simp add: requested_state_def submitted_state_eq transact_def requestAssessmentDecryption_def
      FHE_requestDecryption_def orderBook_at_def decryptedAssessment_at_def riskAssessment_at_def
      env_of_def Let_def)

lemma requested_twice_state_eq:
  "requested_twice_state = submitted_state
     \<lparr>requestToExchangeId := [7 \<mapsto> 1, 8 \<mapsto> 1],
      requestedHandles := [7 \<mapsto> [encryptedLiquidityImpact example_assessment,
         encryptedFlashCrashRisk example_assessment, encryptedMarketInstability example_assessment],
        8 \<mapsto> [encryptedLiquidityImpact example_assessment,
         encryptedFlashCrashRisk example_assessment, encryptedMarketInstability example_assessment]]\<rparr>"
  by (simp add: requested_twice_state_def requested_state_eq submitted_state_eq transact_def
      requestAssessmentDecryption_def FHE_requestDecryption_def orderBook_at_def
      decryptedAssessment_at_def riskAssessment_at_def env_of_def Let_def)

lemma revealed_state_eq:
  "revealed_state = requested_state
     \<lparr>decryptedAssessments := [1 \<mapsto> \<lparr> liquidityImpact = 2, flashCrashRisk = 100,
         marketInstability = 70, isRevealed = True \<rparr>],
      events := [RiskAnalysisCompleted 1, OrderBookSubmitted 1 10 1000, AssessmentDecrypted 1]\<rparr>"
  by (simp add: revealed_state_def requested_state_eq submitted_state_eq transact_def
      decryptAssessment_def FHE_checkSignatures_def requestedHandles_at_def
      requestToExchangeId_at_def decryptedAssessment_at_def env_of_def Let_def
      example_cleartexts_decode)

lemma reachable_submitted: "reachable submitted_state"
  unfolding submitted_state_def
  by (rule reachable_transact[OF reachable_initial]) (simp add: env_of_def)

lemma reachable_requested: "reachable requested_state"
  unfolding requested_state_def
  by (rule reachable_transact[OF reachable_submitted]) (simp add: env_of_def)

lemma reachable_requested_twice: "reachable requested_twice_state"
  unfolding requested_twice_state_def
  by (rule reachable_transact[OF reachable_requested]) (simp add: env_of_def)

lemma reachable_revealed: "reachable revealed_state"
  unfolding revealed_state_def
  by (rule reachable_transact[OF reachable_requested]) (simp add: env_of_def)

lemma callback_commits:
  "decryptAssessment (env_of 99 0 True) requested_state 7 example_cleartexts [] = Inr revealed_state"
  by (simp add: revealed_state_eq requested_state_eq submitted_state_eq decryptAssessment_def
      FHE_checkSignatures_def requestedHandles_at_def requestToExchangeId_at_def
      decryptedAssessment_at_def env_of_def Let_def example_cleartexts_decode)

section \<open>Case analysis of a transaction\<close>

lemma exec_InrE:
  assumes "exec e s c = Inr s'"
  obtains
    (register) ex where "c = RegisterExchange ex" "exchangeCount s \<noteq> - 1"
      "s' = s\<lparr>exchangeCount := exchangeCount s + 1\<rparr>"
  | (submit) bid ask flow vol ex where "c = SubmitEncryptedOrderBook bid ask flow vol ex"
      "submitEncryptedOrderBook e s bid ask flow vol ex = Inr s'"
  | (request) eid cts where "c = RequestAssessmentDecryption eid"
      "s' = s\<lparr>requestedHandles := (requestedHandles s)(requestDecryption_id e \<mapsto> cts),
              requestToExchangeId := (requestToExchangeId s)(requestDecryption_id e \<mapsto> eid)\<rparr>"
  | (decrypt) rid cleartexts pf where "c = DecryptAssessment rid cleartexts pf"
      "decryptAssessment e s rid cleartexts pf = Inr s'"
  | (request_orderBook) cts where
      "s' = s\<lparr>requestedHandles := (requestedHandles s)(requestDecryption_id e \<mapsto> cts)\<rparr>"
  | (unchanged) "s' = s"
proof (cases c)
  case (RegisterExchange ex)
  then obtain r where "registerExchange s ex = Inr (s', r)"
    using assms by (cases "registerExchange s ex") auto
  then show ?thesis using RegisterExchange register by (simp add: registerExchange_Inr)
next
  case (SubmitEncryptedOrderBook bid ask flow vol ex)
  then show ?thesis using assms submit by simp
next
  case (RequestAssessmentDecryption eid)
  then obtain req where "requestAssessmentDecryption e s eid = Inr (s', req)"
    using assms by (cases "requestAssessmentDecryption e s eid") auto
  then show ?thesis using RequestAssessmentDecryption request requestAssessment_Inr(3) by blast
next
  case (DecryptAssessment rid cleartexts pf)
  then show ?thesis using assms decrypt by simp
next
  case (RequestOrderBookDecryption eid)
  then obtain req where "requestOrderBookDecryption e s eid = Inr (s', req)"
    using assms by (cases "requestOrderBookDecryption e s eid") auto
  then show ?thesis using request_orderBook requestOrderBook_Inr by blast
next
  case (DecryptOrderBook rid cleartexts pf)
  then show ?thesis using assms unchanged decryptOrderBook_Inr[of e s rid cleartexts pf s'] by simp
next
  case GetExchangeCount
  then show ?thesis using assms unchanged by simp
qed

lemma transact_cases:
  obtains (reverted) r where "exec e s c = Inl r" "transact e s c = s"
  | (committed) s' where "exec e s c = Inr s'" "transact e s c = s'"
  by (cases "exec e s c") (auto simp: transact_def)

lemma reachable_run:
  "reachable s \<Longrightarrow> \<forall>(e, c) \<in> set tr. msg_sender e \<noteq> 0 \<Longrightarrow> reachable (run s tr)"
proof (induction tr arbitrary: s)
  case Nil
  then show ?case by simp
next
  case (Cons a tr)
  obtain e c where a: "a = (e, c)" by (cases a)
  have "reachable (transact e s c)"
    using Cons.prems a by (simp add: reachable_transact)
  then show ?case using Cons.IH[of "transact e s c"] Cons.prems(2) a by simp
qed

text \<open>A revealed record is not written again.\<close>

lemma exec_keeps_revealed:
  assumes "consistent s" "decryptedAssessments s eid = Some d" "isRevealed d"
    and "exec e s c = Inr s'"
  shows "decryptedAssessments s' eid = Some d"
  using assms(4)
proof (cases rule: exec_InrE)
  case (submit bid ask flow vol ex)
  note f = submit_Inr[OF submit(2)]
  have "eid \<in> dom (orderBooks s)" using assms(1,2) consistentD(6) by blast
  then have "eid < exchangeCount s + 1"
    using consistentD(4)[OF assms(1)] le_less_succ[OF f(1)] by blast
  then show ?thesis using assms(2) by (auto simp: f(5))
next
  case (decrypt rid cleartexts pf)
  from decryptAssessment_Inr[OF decrypt(2)] obtain li cr ins where
    nr: "\<not> isRevealed (decryptedAssessment_at s (requestToExchangeId_at s rid))" and
    s': "s' = s\<lparr>decryptedAssessments := (decryptedAssessments s)(requestToExchangeId_at s rid \<mapsto>
               \<lparr> liquidityImpact = li, flashCrashRisk = cr, marketInstability = ins,
                 isRevealed = True \<rparr>),
             events := events s @ [AssessmentDecrypted (requestToExchangeId_at s rid)]\<rparr>"
    by blast
  have "requestToExchangeId_at s rid \<noteq> eid"
    using nr assms(2,3) by (auto simp: decryptedAssessment_at_def)
  then show ?thesis using assms(2) by (simp add: s')
qed (use assms(2) in simp_all)

lemma transact_keeps_revealed:
  assumes "consistent s" "decryptedAssessments s eid = Some d" "isRevealed d"
  shows "decryptedAssessments (transact e s c) eid = Some d"
  using exec_keeps_revealed[OF assms] assms(2) by (cases rule: transact_cases[of e s c]) auto

lemma run_keeps_revealed:
  assumes "reachable s" "decryptedAssessments s eid = Some d" "isRevealed d"
    and "\<forall>(e, c) \<in> set tr. msg_sender e \<noteq> 0"
  shows "decryptedAssessments (run s tr) eid = Some d"
  using assms
proof (induction tr arbitrary: s)
  case Nil
  then show ?case by simp
next
  case (Cons a tr)
  obtain e c where a: "a = (e, c)" by (cases a)
  have "reachable (transact e s c)"
    using Cons.prems(1,4) a by (simp add: reachable_transact)
  moreover have "decryptedAssessments (transact e s c) eid = Some d"
    using transact_keeps_revealed[OF reachable_consistent[OF Cons.prems(1)] Cons.prems(2,3)] .
  ultimately show ?case using Cons.IH[of "transact e s c"] Cons.prems(3,4) a by simp
qed

lemma revealed_request_reverts:
  assumes "decryptedAssessments s eid = Some d" "isRevealed d"
  shows "requestAssessmentDecryption e s eid =
      Inl (if msg_sender e = exchange (orderBook_at s eid) then AlreadyRevealed else Unauthorized)"
  using assms by (simp add: requestAssessmentDecryption_def decryptedAssessment_at_def)

lemma revealed_callback_reverts:
  assumes "decryptedAssessments s eid = Some d" "isRevealed d" "eid \<noteq> 0"
    and "requestToExchangeId s rid = Some eid"
  shows "decryptAssessment e s rid cleartexts pf = Inl AlreadyRevealed"
  using assms
  by (simp add: decryptAssessment_def decryptedAssessment_at_def requestToExchangeId_at_def)

lemma second_delivery_reverts:
  assumes "decryptAssessment e s rid cleartexts pf = Inr s'"
  shows "decryptAssessment e' s' rid cleartexts' pf' = Inl AlreadyRevealed"
proof -
  from decryptAssessment_Inr[OF assms] obtain li cr ins where
    nz: "requestToExchangeId_at s rid \<noteq> 0" and
    s': "s' = s\<lparr>decryptedAssessments := (decryptedAssessments s)(requestToExchangeId_at s rid \<mapsto>
               \<lparr> liquidityImpact = li, flashCrashRisk = cr, marketInstability = ins,
                 isRevealed = True \<rparr>),
             events := events s @ [AssessmentDecrypted (requestToExchangeId_at s rid)]\<rparr>"
    by blast
  show ?thesis using nz
    by (simp add: s' decryptAssessment_def decryptedAssessment_at_def requestToExchangeId_at_def)
qed

section \<open>Decoding the oracle's answer, frozen order books, more of the example run\<close>

lemma riskAssessment_at_Some: "riskAssessments s eid = Some ra \<Longrightarrow> riskAssessment_at s eid = ra"
  by (simp add: riskAssessment_at_def)

lemma abi_decode_oracle3:
  "abi_decode_uint32s 3 (oracle_cleartexts key [a, b, c]) =
     Some [plaintext key a, plaintext key b, plaintext key c]"
proof -
  have "abi_decode_uint32s (length [a, b, c]) (oracle_cleartexts key [a, b, c] @ []) =
      Some (map (plaintext key) [a, b, c])"
    by (rule abi_decode_oracle_cleartexts)
  moreover have "length [a, b, c] = 3" by simp
  ultimately show ?thesis by (simp only: append_Nil2 list.map)
qed


lemma submit_example:
  "submitEncryptedOrderBook (env_of 10 0 True) initial_state (Handle 11) (Handle 12) (Handle 13)
     (Handle 14) 10 = Inr submitted_state"
  by (simp add: submitted_state_eq submitEncryptedOrderBook_def registerExchange_def
      assessRisk_def orderBook_at_def initial_state_def env_of_def example_assessment_def Let_def)

lemma length_abi_decode_uint32s:
  "abi_decode_uint32s n bs = Some ws \<Longrightarrow> length ws = n"
  by (induction n arbitrary: bs ws) (auto split: if_splits option.splits)


lemma exec_orderBooks_frozen:
  assumes "exec e s c = Inr s'"
  shows "exchangeCount s \<le> exchangeCount s'"
    and "eid \<le> exchangeCount s \<Longrightarrow> orderBooks s' eid = orderBooks s eid"
proof -
  have "exchangeCount s \<le> exchangeCount s' \<and>
      (eid \<le> exchangeCount s \<longrightarrow> orderBooks s' eid = orderBooks s eid)"
    using assms
  proof (cases rule: exec_InrE)
    case (register ex)
    then show ?thesis using less_succ[of "exchangeCount s"] by simp
  next
    case (submit bid ask flow vol ex)
    note f = submit_Inr[OF submit(2)]
    show ?thesis using less_succ[OF f(1)] by (auto simp: f(2,3))
  next
    case (decrypt rid cleartexts pf)
    from decryptAssessment_Inr[OF decrypt(2)] show ?thesis by auto
  qed simp_all
  then show "exchangeCount s \<le> exchangeCount s'"
    and "eid \<le> exchangeCount s \<Longrightarrow> orderBooks s' eid = orderBooks s eid"
    by simp_all
qed

lemma run_orderBooks_frozen:
  "eid \<le> exchangeCount s \<Longrightarrow> orderBooks (run s tr) eid = orderBooks s eid"
proof (induction tr arbitrary: s)
  case Nil
  then show ?case by simp
next
  case (Cons a tr)
  obtain e c where a: "a = (e, c)" by (cases a)
  show ?case
  proof (cases rule: transact_cases[of e s c])
    case (reverted r)
    then show ?thesis using Cons a by simp
  next
    case (committed s')
    have "eid \<le> exchangeCount s'"
      using exec_orderBooks_frozen(1)[OF committed(1)] Cons.prems by simp
    then show ?thesis
      using Cons.IH[of s'] exec_orderBooks_frozen(2)[OF committed(1) Cons.prems] committed(2) a
      by simp
  qed
qed

lemma decryptAssessment_commits:
  assumes "requestToExchangeId s rid = Some eid" and "eid \<noteq> 0"
    and "\<not> isRevealed (decryptedAssessment_at s eid)"
    and "requestedHandles_at s rid \<noteq> []"
    and "checkSignatures e rid cleartexts pf"
    and "abi_decode_uint32s 3 cleartexts = Some [li, cr, ins]"
  shows "decryptAssessment e s rid cleartexts pf =
      Inr (s\<lparr>decryptedAssessments := (decryptedAssessments s)(eid \<mapsto>
               \<lparr> liquidityImpact = li, flashCrashRisk = cr, marketInstability = ins,
                 isRevealed = True \<rparr>),
             events := events s @ [AssessmentDecrypted eid]\<rparr>)"
proof -
  have "requestToExchangeId_at s rid = eid"
    using assms(1) by (simp add: requestToExchangeId_at_def)
  then show ?thesis
    using assms(2-6)
    by (simp add: decryptAssessment_def FHE_checkSignatures_def Let_def
        DecryptedAssessment_overwrite)
qed

lemma recorded_request_known:
  assumes "reachable s" and "requestToExchangeId s rid = Some eid"
  shows "eid \<noteq> 0" and "eid \<in> dom (orderBooks s)" and "requestedHandles_at s rid \<noteq> []"
proof -
  note c = consistentD[OF reachable_consistent[OF assms(1)]]
  have "eid \<in> ran (requestToExchangeId s)" using assms(2) by (auto simp: ran_def)
  then show "eid \<in> dom (orderBooks s)" using c(7) by blast
  then show "eid \<noteq> 0" using c(4) by blast
  show "requestedHandles_at s rid \<noteq> []" using c(8)[of rid] assms(2) by blast
qed

lemma second_request_example:
  "requestAssessmentDecryption (env_of 10 8 True) requested_state 1 =
     Inr (requested_twice_state,
          \<lparr> request_id = 8,
            ciphertexts = [encryptedLiquidityImpact example_assessment,
              encryptedFlashCrashRisk example_assessment,
              encryptedMarketInstability example_assessment],
            callback = decryptAssessment_selector \<rparr>)"
  by (simp add: requested_twice_state_eq requested_state_eq submitted_state_eq
      requestAssessmentDecryption_def FHE_requestDecryption_def orderBook_at_def
      decryptedAssessment_at_def riskAssessment_at_def env_of_def Let_def)

lemma first_callback_of_two:
  "decryptAssessment (env_of 99 0 True) requested_twice_state 7 example_cleartexts [] =
     Inr (transact (env_of 99 0 True) requested_twice_state (DecryptAssessment 7 example_cleartexts []))"
  by (simp add: transact_def requested_twice_state_eq submitted_state_eq decryptAssessment_def
      FHE_checkSignatures_def requestedHandles_at_def requestToExchangeId_at_def
      decryptedAssessment_at_def env_of_def Let_def example_cleartexts_decode)

section \<open>The claims\<close>

text \<open>
  C1 (as amended). In a reachable state where the DecryptedAssessment of an exchange id is
  revealed: \<open>requestAssessmentDecryption\<close> for that id reverts, with AlreadyRevealed
  when the caller is the stored owner and with Unauthorized otherwise, since the
  ownership check comes first; \<open>decryptAssessment\<close> for any request id recorded for that
  id reverts with AlreadyRevealed; both leave the state as it was. No sequence of
  transactions changes the revealed record again, so \<open>isRevealed\<close> never returns to
  false and the three plaintext fields are committed at most once. A second delivery of
  a callback that succeeded reverts with AlreadyRevealed and changes nothing.
\<close>

theorem revealed_is_final:
  assumes "reachable s" and "decryptedAssessments s eid = Some d" and "isRevealed d"
  shows "requestAssessmentDecryption e s eid =
           Inl (if msg_sender e = exchange (orderBook_at s eid) then AlreadyRevealed else Unauthorized)
       \<and> transact e s (RequestAssessmentDecryption eid) = s
       \<and> (requestToExchangeId s rid = Some eid \<longrightarrow>
            decryptAssessment e s rid cleartexts pf = Inl AlreadyRevealed
          \<and> transact e s (DecryptAssessment rid cleartexts pf) = s)
       \<and> ((\<forall>(e', c) \<in> set tr. msg_sender e' \<noteq> 0) \<longrightarrow>
            decryptedAssessments (run s tr) eid = Some d)
       \<and> (decryptAssessment e0 s0 rid0 cleartexts0 pf0 = Inr s \<longrightarrow>
            decryptAssessment e s rid0 cleartexts pf = Inl AlreadyRevealed
          \<and> transact e s (DecryptAssessment rid0 cleartexts pf) = s)"
proof -
  have nz: "eid \<noteq> 0"
    using consistentD(4,6)[OF reachable_consistent[OF assms(1)]] assms(2) by blast
  have 1: "requestAssessmentDecryption e s eid =
           Inl (if msg_sender e = exchange (orderBook_at s eid) then AlreadyRevealed else Unauthorized)"
    by (rule revealed_request_reverts[OF assms(2,3)])
  then have 2: "transact e s (RequestAssessmentDecryption eid) = s"
    by (simp add: transact_def)
  have 3: "decryptAssessment e s rid cleartexts pf = Inl AlreadyRevealed
      \<and> transact e s (DecryptAssessment rid cleartexts pf) = s"
    if "requestToExchangeId s rid = Some eid"
    using revealed_callback_reverts[OF assms(2,3) nz that] by (simp add: transact_def)
  have 4: "decryptedAssessments (run s tr) eid = Some d"
    if "\<forall>(e', c) \<in> set tr. msg_sender e' \<noteq> 0"
    by (rule run_keeps_revealed[OF assms that])
  have 5: "decryptAssessment e s rid0 cleartexts pf = Inl AlreadyRevealed
      \<and> transact e s (DecryptAssessment rid0 cleartexts pf) = s"
    if "decryptAssessment e0 s0 rid0 cleartexts0 pf0 = Inr s"
    using second_delivery_reverts[OF that] by (simp add: transact_def)
  show ?thesis using 1 2 3 4 5 by blast
qed

theorem revealed_is_final_witness:
  "reachable revealed_state
   \<and> decryptedAssessments revealed_state 1 = Some \<lparr> liquidityImpact = 2, flashCrashRisk = 100,
        marketInstability = 70, isRevealed = True \<rparr>
   \<and> requestAssessmentDecryption (env_of 10 8 True) revealed_state 1 = Inl AlreadyRevealed
   \<and> requestToExchangeId revealed_state 7 = Some 1
   \<and> decryptAssessment (env_of 99 0 True) requested_state 7 example_cleartexts [] = Inr revealed_state
   \<and> decryptAssessment (env_of 99 0 True) revealed_state 7 example_cleartexts [] = Inl AlreadyRevealed
   \<and> transact (env_of 99 0 True) revealed_state (DecryptAssessment 7 example_cleartexts []) = revealed_state
   \<and> decryptedAssessments (run revealed_state
        [(env_of 10 0 True, SubmitEncryptedOrderBook (Handle 1) (Handle 2) (Handle 3) (Handle 4) 10),
         (env_of 10 9 True, RequestAssessmentDecryption 1)]) 1 =
      Some \<lparr> liquidityImpact = 2, flashCrashRisk = 100, marketInstability = 70, isRevealed = True \<rparr>"
proof -
  have d: "decryptedAssessments revealed_state 1 = Some \<lparr> liquidityImpact = 2, flashCrashRisk = 100,
        marketInstability = 70, isRevealed = True \<rparr>"
    by (simp add: revealed_state_eq)
  have r: "requestToExchangeId revealed_state 7 = Some 1"
    by (simp add: revealed_state_eq requested_state_eq)
  have o: "msg_sender (env_of 10 8 True) = exchange (orderBook_at revealed_state 1)"
    by (simp add: revealed_state_eq requested_state_eq submitted_state_eq env_of_def orderBook_at_def)
  have t: "\<forall>(e', c) \<in> set [(env_of 10 0 True, SubmitEncryptedOrderBook (Handle 1) (Handle 2) (Handle 3) (Handle 4) 10),
         (env_of 10 9 True, RequestAssessmentDecryption 1)]. msg_sender e' \<noteq> 0"
    by (simp add: env_of_def)
  show ?thesis
    using revealed_is_final[OF reachable_revealed d, where e = "env_of 10 8 True" and rid = 7
        and tr = "[(env_of 10 0 True, SubmitEncryptedOrderBook (Handle 1) (Handle 2) (Handle 3) (Handle 4) 10),
         (env_of 10 9 True, RequestAssessmentDecryption 1)]"]
      revealed_is_final[OF reachable_revealed d, where e = "env_of 99 0 True" and rid = 7
        and cleartexts = example_cleartexts and pf = "[]" and ?e0.0 = "env_of 99 0 True"
        and ?s0.0 = requested_state and ?rid0.0 = 7 and ?cleartexts0.0 = example_cleartexts
        and ?pf0.0 = "[]"]
      reachable_revealed d r o t callback_commits
    by simp
qed

text \<open>
  C1 as stated fails for a caller who is not the owner: on the revealed exchange 1 of the
  example run, the request of address 20 reverts with Unauthorized, not AlreadyRevealed.
\<close>

theorem stranger_request_after_reveal:
  "isRevealed (decryptedAssessment_at revealed_state 1)
   \<and> requestAssessmentDecryption (env_of 20 8 True) revealed_state 1 = Inl Unauthorized
   \<and> requestAssessmentDecryption (env_of 20 8 True) revealed_state 1 \<noteq> Inl AlreadyRevealed"
  by (simp add: revealed_state_eq requested_state_eq submitted_state_eq env_of_def
      requestAssessmentDecryption_def orderBook_at_def decryptedAssessment_at_def)

text \<open>
  C2. When \<open>FHE.checkSignatures\<close> rejects or the cleartexts do not decode into three
  \<open>uint32\<close>, \<open>decryptAssessment\<close> reverts and the state, with every DecryptedAssessment
  in it, is as before the call. When the call gets as far as the verification (known
  request, not revealed), a rejected proof is reported as InvalidProof whether or not
  the cleartexts decode: verification comes before decoding and before any write. The
  library looks the saved handles of the request up before it verifies; in a reachable
  state a recorded request always has them.
\<close>

theorem decryptAssessment_fails_closed:
  assumes "\<not> checkSignatures e rid cleartexts pf \<or> abi_decode_uint32s 3 cleartexts = None"
  shows "(\<exists>r. decryptAssessment e s rid cleartexts pf = Inl r)
       \<and> transact e s (DecryptAssessment rid cleartexts pf) = s
       \<and> (requestToExchangeId_at s rid \<noteq> 0
            \<and> \<not> isRevealed (decryptedAssessment_at s (requestToExchangeId_at s rid)) \<longrightarrow>
          decryptAssessment e s rid cleartexts pf =
            Inl (if requestedHandles_at s rid = [] then No_handle_found_for_request
                 else if checkSignatures e rid cleartexts pf then MalformedCleartext
                 else InvalidProof))
       \<and> (reachable s \<and> requestToExchangeId_at s rid \<noteq> 0 \<longrightarrow>
            requestedHandles_at s rid \<noteq> [])"
proof -
  have 1: "\<exists>r. decryptAssessment e s rid cleartexts pf = Inl r"
    using assms by (auto simp: decryptAssessment_def FHE_checkSignatures_def Let_def)
  then have 2: "transact e s (DecryptAssessment rid cleartexts pf) = s"
    by (auto simp: transact_def)
  have 3: "decryptAssessment e s rid cleartexts pf =
            Inl (if requestedHandles_at s rid = [] then No_handle_found_for_request
                 else if checkSignatures e rid cleartexts pf then MalformedCleartext
                 else InvalidProof)"
    if "requestToExchangeId_at s rid \<noteq> 0"
      "\<not> isRevealed (decryptedAssessment_at s (requestToExchangeId_at s rid))"
    using assms that by (auto simp: decryptAssessment_def FHE_checkSignatures_def Let_def)
  have 4: "requestedHandles_at s rid \<noteq> []"
    if "reachable s" "requestToExchangeId_at s rid \<noteq> 0"
  proof -
    from that(2) obtain eid where "requestToExchangeId s rid = Some eid"
      by (auto simp: requestToExchangeId_at_def split: option.splits)
    then show ?thesis by (rule recorded_request_known(3)[OF that(1)])
  qed
  show ?thesis using 1 2 3 4 by blast
qed

theorem decryptAssessment_fails_closed_witness:
  "\<not> checkSignatures (env_of 99 0 False) 7 example_cleartexts []
   \<and> decryptAssessment (env_of 99 0 False) requested_state 7 example_cleartexts [] = Inl InvalidProof
   \<and> abi_decode_uint32s 3 [] = None
   \<and> decryptAssessment (env_of 99 0 True) requested_state 7 [] [] = Inl MalformedCleartext
   \<and> transact (env_of 99 0 True) requested_state (DecryptAssessment 7 [] []) = requested_state
   \<and> decryptedAssessments (transact (env_of 99 0 False) requested_state
        (DecryptAssessment 7 example_cleartexts [])) 1 =
      Some \<lparr> liquidityImpact = 0, flashCrashRisk = 0, marketInstability = 0, isRevealed = False \<rparr>
   \<and> reachable requested_state
   \<and> requestedHandles_at requested_state 7 \<noteq> []"
proof -
  have a: "\<not> checkSignatures (env_of 99 0 False) 7 example_cleartexts []"
    by (simp add: env_of_def)
  have b: "abi_decode_uint32s 3 [] = None"
    by (simp add: numeral_3_eq_3)
  have c: "checkSignatures (env_of 99 0 True) 7 [] []"
    by (simp add: env_of_def)
  have d: "requestToExchangeId_at requested_state 7 = 1"
    "\<not> isRevealed (decryptedAssessment_at requested_state 1)"
    "decryptedAssessments requested_state 1 =
      Some \<lparr> liquidityImpact = 0, flashCrashRisk = 0, marketInstability = 0, isRevealed = False \<rparr>"
    by (simp_all add: requested_state_eq submitted_state_eq requestToExchangeId_at_def
        decryptedAssessment_at_def)
  note w = decryptAssessment_fails_closed[of "env_of 99 0 False" 7 example_cleartexts "[]"
      requested_state]
  have h: "requestedHandles_at requested_state 7 \<noteq> []"
    using w[OF disjI1[OF a], THEN conjunct2, THEN conjunct2, THEN conjunct2] reachable_requested
      d(1)
    by simp
  show ?thesis
    using w decryptAssessment_fails_closed[of "env_of 99 0 True" 7 "[]" "[]" requested_state]
      a b c d h reachable_requested
    by simp
qed

text \<open>
  C3. A successful submission stores for the new order book exactly the three handles
  \<open>(bid - ask) / 100\<close>, \<open>flow * 2\<close> and \<open>(volatility * 3) + (flow / 5)\<close>, with these
  operand orders; their plaintexts are the same expressions over the plaintexts of the
  inputs. When the owner then requests the decryption and the oracle calls back with
  the plaintexts of the requested handles and an accepted proof, the DecryptedAssessment
  holds these three values with \<open>isRevealed = True\<close>. For handles standing for bid 500,
  ask 300, flow 50 and volatility 20 (the example run) the record is 2, 100, 70, revealed.
\<close>

theorem assessRisk_formulas:
  assumes "submitEncryptedOrderBook e s bid ask flow vol ex = Inr s1"
  shows "riskAssessments s1 (exchangeCount s1) = Some
           \<lparr> encryptedLiquidityImpact = FHE_div (FHE_sub bid ask) (FHE_asEuint32 100),
             encryptedFlashCrashRisk = FHE_mul flow (FHE_asEuint32 2),
             encryptedMarketInstability =
               FHE_add (FHE_mul vol (FHE_asEuint32 3)) (FHE_div flow (FHE_asEuint32 5)) \<rparr>
       \<and> plaintext key (encryptedLiquidityImpact (riskAssessment_at s1 (exchangeCount s1))) =
           (plaintext key bid - plaintext key ask) div 100
       \<and> plaintext key (encryptedFlashCrashRisk (riskAssessment_at s1 (exchangeCount s1))) =
           plaintext key flow * 2
       \<and> plaintext key (encryptedMarketInstability (riskAssessment_at s1 (exchangeCount s1))) =
           plaintext key vol * 3 + plaintext key flow div 5
       \<and> (msg_sender e2 = ex \<longrightarrow>
            (\<exists>s2 req. requestAssessmentDecryption e2 s1 (exchangeCount s1) = Inr (s2, req)
               \<and> request_id req = requestDecryption_id e2
               \<and> callback req = decryptAssessment_selector
               \<and> (checkSignatures e3 (request_id req) (oracle_cleartexts key (ciphertexts req)) pf \<longrightarrow>
                    (\<exists>s3. decryptAssessment e3 s2 (request_id req)
                             (oracle_cleartexts key (ciphertexts req)) pf = Inr s3
                       \<and> decryptedAssessments s3 (exchangeCount s1) = Some
                            \<lparr> liquidityImpact = (plaintext key bid - plaintext key ask) div 100,
                              flashCrashRisk = plaintext key flow * 2,
                              marketInstability = plaintext key vol * 3 + plaintext key flow div 5,
                              isRevealed = True \<rparr>))))
       \<and> decryptedAssessments revealed_state 1 = Some
           \<lparr> liquidityImpact = 2, flashCrashRisk = 100, marketInstability = 70, isRevealed = True \<rparr>"
proof -
  note f = submit_Inr[OF assms]
  let ?n = "exchangeCount s + 1"
  let ?ra = "\<lparr> encryptedLiquidityImpact = FHE_div (FHE_sub bid ask) (FHE_asEuint32 100),
             encryptedFlashCrashRisk = FHE_mul flow (FHE_asEuint32 2),
             encryptedMarketInstability =
               FHE_add (FHE_mul vol (FHE_asEuint32 3)) (FHE_div flow (FHE_asEuint32 5)) \<rparr>"
  let ?cts = "[FHE_div (FHE_sub bid ask) (FHE_asEuint32 100), FHE_mul flow (FHE_asEuint32 2),
      FHE_add (FHE_mul vol (FHE_asEuint32 3)) (FHE_div flow (FHE_asEuint32 5))]"
  have ra: "riskAssessments s1 (exchangeCount s1) = Some ?ra"
    by (simp add: f(2,4))
  have at: "riskAssessment_at s1 (exchangeCount s1) = ?ra"
    by (rule riskAssessment_at_Some[OF ra])
  have nz: "?n \<noteq> 0" by (rule succ_neq_0[OF f(1)])
  have reveal: "\<exists>s2 req. requestAssessmentDecryption e2 s1 (exchangeCount s1) = Inr (s2, req)
               \<and> request_id req = requestDecryption_id e2
               \<and> callback req = decryptAssessment_selector
               \<and> (checkSignatures e3 (request_id req) (oracle_cleartexts key (ciphertexts req)) pf \<longrightarrow>
                    (\<exists>s3. decryptAssessment e3 s2 (request_id req)
                             (oracle_cleartexts key (ciphertexts req)) pf = Inr s3
                       \<and> decryptedAssessments s3 (exchangeCount s1) = Some
                            \<lparr> liquidityImpact = (plaintext key bid - plaintext key ask) div 100,
                              flashCrashRisk = plaintext key flow * 2,
                              marketInstability = plaintext key vol * 3 + plaintext key flow div 5,
                              isRevealed = True \<rparr>))"
    if owner: "msg_sender e2 = ex"
  proof -
    let ?s2 = "s1\<lparr>requestedHandles := (requestedHandles s1)(requestDecryption_id e2 \<mapsto> ?cts),
                  requestToExchangeId := (requestToExchangeId s1)(requestDecryption_id e2 \<mapsto> ?n)\<rparr>"
    let ?req = "\<lparr> request_id = requestDecryption_id e2, ciphertexts = ?cts,
                  callback = decryptAssessment_selector \<rparr>"
    have req: "requestAssessmentDecryption e2 s1 (exchangeCount s1) = Inr (?s2, ?req)"
      using owner at
      by (simp add: requestAssessmentDecryption_def FHE_requestDecryption_def f(2,3,5)
          orderBook_at_def decryptedAssessment_at_def Let_def)
    have dec: "abi_decode_uint32s 3 (oracle_cleartexts key ?cts) =
        Some [(plaintext key bid - plaintext key ask) div 100, plaintext key flow * 2,
              plaintext key vol * 3 + plaintext key flow div 5]"
      by (simp only: abi_decode_oracle3 plaintext.simps)
    have cb: "decryptAssessment e3 ?s2 (requestDecryption_id e2) (oracle_cleartexts key ?cts) pf =
        Inr (?s2\<lparr>decryptedAssessments := (decryptedAssessments ?s2)(?n \<mapsto>
               \<lparr> liquidityImpact = (plaintext key bid - plaintext key ask) div 100,
                 flashCrashRisk = plaintext key flow * 2,
                 marketInstability = plaintext key vol * 3 + plaintext key flow div 5,
                 isRevealed = True \<rparr>),
             events := events ?s2 @ [AssessmentDecrypted ?n]\<rparr>)"
      if "checkSignatures e3 (requestDecryption_id e2) (oracle_cleartexts key ?cts) pf"
      by (rule decryptAssessment_commits[OF _ nz _ _ that dec])
        (simp_all add: decryptedAssessment_at_def requestedHandles_at_def f(5))
    show ?thesis
      apply (rule exI[of _ ?s2], rule exI[of _ ?req])
      using req cb by (simp add: f(2))
  qed
  have ex: "decryptedAssessments revealed_state 1 = Some
           \<lparr> liquidityImpact = 2, flashCrashRisk = 100, marketInstability = 70, isRevealed = True \<rparr>"
    by (simp add: revealed_state_eq)
  show ?thesis
    using ra reveal ex by (simp add: at)
qed

theorem assessRisk_formulas_witness:
  "submitEncryptedOrderBook (env_of 10 0 True) initial_state (Handle 11) (Handle 12) (Handle 13)
     (Handle 14) 10 = Inr submitted_state
   \<and> riskAssessments submitted_state 1 = Some example_assessment
   \<and> plaintext example_key (encryptedLiquidityImpact (riskAssessment_at submitted_state 1)) = 2
   \<and> plaintext example_key (encryptedFlashCrashRisk (riskAssessment_at submitted_state 1)) = 100
   \<and> plaintext example_key (encryptedMarketInstability (riskAssessment_at submitted_state 1)) = 70
   \<and> msg_sender (env_of 10 7 True) = 10
   \<and> (\<exists>s2 req. requestAssessmentDecryption (env_of 10 7 True) submitted_state 1 = Inr (s2, req)
         \<and> request_id req = 7
         \<and> checkSignatures (env_of 99 0 True) (request_id req)
              (oracle_cleartexts example_key (ciphertexts req)) []
         \<and> (\<exists>s3. decryptAssessment (env_of 99 0 True) s2 (request_id req)
                     (oracle_cleartexts example_key (ciphertexts req)) [] = Inr s3
               \<and> decryptedAssessments s3 1 = Some
                    \<lparr> liquidityImpact = 2, flashCrashRisk = 100, marketInstability = 70,
                      isRevealed = True \<rparr>))"
proof -
  have c: "exchangeCount submitted_state = 1" by (simp add: submitted_state_eq)
  show ?thesis
    using assessRisk_formulas[OF submit_example, of example_key "env_of 10 7 True"
        "env_of 99 0 True" "[]"] submit_example
    by (simp add: c example_key_def example_assessment_def env_of_def) blast
qed

text \<open>
  C4. A caller who is not the stored owner \<open>orderBooks[id].exchange\<close> gets Unauthorized
  from \<open>requestAssessmentDecryption\<close> and from \<open>requestOrderBookDecryption\<close>, for every
  exchange id, and the state is unchanged: no request is recorded.
\<close>

theorem non_owner_request_reverts:
  assumes "msg_sender e \<noteq> exchange (orderBook_at s eid)"
  shows "requestAssessmentDecryption e s eid = Inl Unauthorized
       \<and> requestOrderBookDecryption e s eid = Inl Unauthorized
       \<and> transact e s (RequestAssessmentDecryption eid) = s
       \<and> transact e s (RequestOrderBookDecryption eid) = s"
  using assms
  by (simp add: requestAssessmentDecryption_def requestOrderBookDecryption_def transact_def)

theorem non_owner_request_reverts_witness:
  "msg_sender (env_of 20 7 True) \<noteq> exchange (orderBook_at submitted_state 1)
   \<and> requestAssessmentDecryption (env_of 20 7 True) submitted_state 1 = Inl Unauthorized
   \<and> requestOrderBookDecryption (env_of 20 7 True) submitted_state 1 = Inl Unauthorized
   \<and> transact (env_of 20 7 True) submitted_state (RequestAssessmentDecryption 1) = submitted_state
   \<and> requestToExchangeId (transact (env_of 20 7 True) submitted_state
        (RequestAssessmentDecryption 1)) 7 = None"
proof -
  have a: "msg_sender (env_of 20 7 True) \<noteq> exchange (orderBook_at submitted_state 1)"
    by (simp add: submitted_state_eq env_of_def orderBook_at_def)
  have b: "requestToExchangeId submitted_state 7 = None"
    by (simp add: submitted_state_eq)
  show ?thesis
    using non_owner_request_reverts[OF a] a b by simp
qed

text \<open>
  C5. A successful submission leaves, at the id it allocated, the submitted OrderBook, its
  RiskAssessment and a DecryptedAssessment with zero fields and \<open>isRevealed = False\<close>;
  from a reachable state that id had no OrderBook before. In every reachable state the
  three tables have the same keys: no OrderBook is without its RiskAssessment and its
  DecryptedAssessment.
\<close>

theorem submission_creates_all_records:
  "(submitEncryptedOrderBook e s bid ask flow vol ex = Inr s' \<longrightarrow>
      orderBooks s' (exchangeCount s') = Some
        \<lparr> exchangeId = exchangeCount s', encryptedBidOrders = bid, encryptedAskOrders = ask,
          encryptedOrderFlow = flow, encryptedVolatility = vol,
          timestamp = block_timestamp e, exchange = ex \<rparr>
    \<and> riskAssessments s' (exchangeCount s') = Some
        \<lparr> encryptedLiquidityImpact = FHE_div (FHE_sub bid ask) (FHE_asEuint32 100),
          encryptedFlashCrashRisk = FHE_mul flow (FHE_asEuint32 2),
          encryptedMarketInstability =
            FHE_add (FHE_mul vol (FHE_asEuint32 3)) (FHE_div flow (FHE_asEuint32 5)) \<rparr>
    \<and> decryptedAssessments s' (exchangeCount s') = Some
        \<lparr> liquidityImpact = 0, flashCrashRisk = 0, marketInstability = 0, isRevealed = False \<rparr>
    \<and> (reachable s \<longrightarrow> exchangeCount s' \<notin> dom (orderBooks s)))
   \<and> (reachable s \<longrightarrow>
        dom (riskAssessments s) = dom (orderBooks s)
      \<and> dom (decryptedAssessments s) = dom (orderBooks s))"
proof -
  have fresh: "exchangeCount s' \<notin> dom (orderBooks s)"
    if sub: "submitEncryptedOrderBook e s bid ask flow vol ex = Inr s'" and r: "reachable s"
  proof
    assume "exchangeCount s' \<in> dom (orderBooks s)"
    then have "exchangeCount s + 1 \<le> exchangeCount s"
      using consistentD(4)[OF reachable_consistent[OF r]] submit_Inr(2)[OF sub] by simp
    then show False using less_succ[OF submit_Inr(1)[OF sub]] by simp
  qed
  have doms: "dom (riskAssessments s) = dom (orderBooks s)
      \<and> dom (decryptedAssessments s) = dom (orderBooks s)" if "reachable s"
    using consistentD(5,6)[OF reachable_consistent[OF that]] by simp
  have recs: "orderBooks s' (exchangeCount s') = Some
        \<lparr> exchangeId = exchangeCount s', encryptedBidOrders = bid, encryptedAskOrders = ask,
          encryptedOrderFlow = flow, encryptedVolatility = vol,
          timestamp = block_timestamp e, exchange = ex \<rparr>
    \<and> riskAssessments s' (exchangeCount s') = Some
        \<lparr> encryptedLiquidityImpact = FHE_div (FHE_sub bid ask) (FHE_asEuint32 100),
          encryptedFlashCrashRisk = FHE_mul flow (FHE_asEuint32 2),
          encryptedMarketInstability =
            FHE_add (FHE_mul vol (FHE_asEuint32 3)) (FHE_div flow (FHE_asEuint32 5)) \<rparr>
    \<and> decryptedAssessments s' (exchangeCount s') = Some
        \<lparr> liquidityImpact = 0, flashCrashRisk = 0, marketInstability = 0, isRevealed = False \<rparr>"
    if sub: "submitEncryptedOrderBook e s bid ask flow vol ex = Inr s'"
    using submit_Inr(2-5)[OF sub] by simp
  show ?thesis
    using fresh doms recs by blast
qed

theorem submission_creates_all_records_witness:
  "submitEncryptedOrderBook (env_of 10 0 True) initial_state (Handle 11) (Handle 12) (Handle 13)
     (Handle 14) 10 = Inr submitted_state
   \<and> orderBooks submitted_state 1 = Some
        \<lparr> exchangeId = 1, encryptedBidOrders = Handle 11, encryptedAskOrders = Handle 12,
          encryptedOrderFlow = Handle 13, encryptedVolatility = Handle 14,
          timestamp = 1000, exchange = 10 \<rparr>
   \<and> riskAssessments submitted_state 1 = Some example_assessment
   \<and> decryptedAssessments submitted_state 1 = Some
        \<lparr> liquidityImpact = 0, flashCrashRisk = 0, marketInstability = 0, isRevealed = False \<rparr>
   \<and> reachable initial_state \<and> 1 \<notin> dom (orderBooks initial_state)
   \<and> reachable revealed_state
   \<and> dom (riskAssessments revealed_state) = dom (orderBooks revealed_state)
   \<and> dom (decryptedAssessments revealed_state) = dom (orderBooks revealed_state)"
proof -
  have c: "exchangeCount submitted_state = 1" by (simp add: submitted_state_eq)
  have t: "block_timestamp (env_of 10 0 True) = 1000" by (simp add: env_of_def)
  show ?thesis
    using submission_creates_all_records[of "env_of 10 0 True" initial_state "Handle 11" "Handle 12"
        "Handle 13" "Handle 14" 10 submitted_state]
      submission_creates_all_records[of _ revealed_state]
      submit_example reachable_initial reachable_revealed
    by (simp add: c t example_assessment_def)
qed



text \<open>
  C7 (as amended). A valid first callback commits. In a reachable state, when the
  request id is recorded for an exchange id whose assessment is not revealed, the
  signatures are accepted and the cleartexts decode into three \<open>uint32\<close>,
  \<open>decryptAssessment\<close> succeeds: it writes the three decoded plaintext fields and
  \<open>isRevealed = True\<close> to the DecryptedAssessment of that exchange id and emits
  \<open>AssessmentDecrypted\<close>. The same holds in any state in which the exchange id is not
  zero and the library has the handles of the request. A successful call does nothing
  else: it leaves \<open>requestToExchangeId\<close> as it was, so the request id still maps to its
  exchange id afterwards, and counter, order books, risk assessments and the library's
  saved handles are unchanged.
\<close>

theorem callback_keeps_request_entry:
  "(reachable s \<and> requestToExchangeId s rid = Some eid
      \<and> \<not> isRevealed (decryptedAssessment_at s eid)
      \<and> checkSignatures e rid cleartexts pf
      \<and> abi_decode_uint32s 3 cleartexts = Some [li, cr, ins] \<longrightarrow>
    decryptAssessment e s rid cleartexts pf =
      Inr (s\<lparr>decryptedAssessments := (decryptedAssessments s)(eid \<mapsto>
               \<lparr> liquidityImpact = li, flashCrashRisk = cr, marketInstability = ins,
                 isRevealed = True \<rparr>),
             events := events s @ [AssessmentDecrypted eid]\<rparr>))
   \<and> (requestToExchangeId s rid = Some eid \<and> eid \<noteq> 0
      \<and> \<not> isRevealed (decryptedAssessment_at s eid)
      \<and> requestedHandles_at s rid \<noteq> []
      \<and> checkSignatures e rid cleartexts pf
      \<and> abi_decode_uint32s 3 cleartexts = Some [li, cr, ins] \<longrightarrow>
    decryptAssessment e s rid cleartexts pf =
      Inr (s\<lparr>decryptedAssessments := (decryptedAssessments s)(eid \<mapsto>
               \<lparr> liquidityImpact = li, flashCrashRisk = cr, marketInstability = ins,
                 isRevealed = True \<rparr>),
             events := events s @ [AssessmentDecrypted eid]\<rparr>))
   \<and> (abi_decode_uint32s 3 cleartexts \<noteq> None \<longrightarrow>
        (\<exists>a b c. abi_decode_uint32s 3 cleartexts = Some [a, b, c]))
   \<and> (decryptAssessment e s rid cleartexts pf = Inr s' \<longrightarrow>
        (\<exists>a b c. abi_decode_uint32s 3 cleartexts = Some [a, b, c]
            \<and> decryptedAssessments s' = (decryptedAssessments s)(requestToExchangeId_at s rid \<mapsto>
                 \<lparr> liquidityImpact = a, flashCrashRisk = b, marketInstability = c,
                   isRevealed = True \<rparr>))
      \<and> requestToExchangeId s' = requestToExchangeId s
      \<and> requestToExchangeId s' rid = Some (requestToExchangeId_at s rid)
      \<and> requestToExchangeId_at s rid \<noteq> 0
      \<and> events s' = events s @ [AssessmentDecrypted (requestToExchangeId_at s rid)]
      \<and> exchangeCount s' = exchangeCount s
      \<and> orderBooks s' = orderBooks s
      \<and> riskAssessments s' = riskAssessments s
      \<and> requestedHandles s' = requestedHandles s)"
proof -
  let ?committed = "s\<lparr>decryptedAssessments := (decryptedAssessments s)(eid \<mapsto>
               \<lparr> liquidityImpact = li, flashCrashRisk = cr, marketInstability = ins,
                 isRevealed = True \<rparr>),
             events := events s @ [AssessmentDecrypted eid]\<rparr>"
  have 2: "decryptAssessment e s rid cleartexts pf = Inr ?committed"
    if "requestToExchangeId s rid = Some eid" "eid \<noteq> 0"
      "\<not> isRevealed (decryptedAssessment_at s eid)" "requestedHandles_at s rid \<noteq> []"
      "checkSignatures e rid cleartexts pf" "abi_decode_uint32s 3 cleartexts = Some [li, cr, ins]"
  proof -
    have "requestToExchangeId_at s rid = eid"
      using that(1) by (simp add: requestToExchangeId_at_def)
    then show ?thesis
      using that(2-6)
      by (simp add: decryptAssessment_def FHE_checkSignatures_def Let_def
          DecryptedAssessment_overwrite)
  qed
  have 1: "decryptAssessment e s rid cleartexts pf = Inr ?committed"
    if r: "reachable s" and q: "requestToExchangeId s rid = Some eid"
      and "\<not> isRevealed (decryptedAssessment_at s eid)"
      "checkSignatures e rid cleartexts pf" "abi_decode_uint32s 3 cleartexts = Some [li, cr, ins]"
    using 2[OF q recorded_request_known(1)[OF r q] that(3) recorded_request_known(3)[OF r q]
        that(4,5)] .
  have 3: "\<exists>a b c. abi_decode_uint32s 3 cleartexts = Some [a, b, c]"
    if "abi_decode_uint32s 3 cleartexts \<noteq> None"
  proof -
    from that obtain ws where ws: "abi_decode_uint32s 3 cleartexts = Some ws" by blast
    then have "length ws = 3" by (rule length_abi_decode_uint32s)
    then obtain a b c where "ws = [a, b, c]"
      by (auto simp: length_Suc_conv numeral_eq_Suc)
    then show ?thesis using ws by blast
  qed
  have 4: "(\<exists>a b c. abi_decode_uint32s 3 cleartexts = Some [a, b, c]
            \<and> decryptedAssessments s' = (decryptedAssessments s)(requestToExchangeId_at s rid \<mapsto>
                 \<lparr> liquidityImpact = a, flashCrashRisk = b, marketInstability = c,
                   isRevealed = True \<rparr>))
      \<and> requestToExchangeId s' = requestToExchangeId s
      \<and> requestToExchangeId s' rid = Some (requestToExchangeId_at s rid)
      \<and> requestToExchangeId_at s rid \<noteq> 0
      \<and> events s' = events s @ [AssessmentDecrypted (requestToExchangeId_at s rid)]
      \<and> exchangeCount s' = exchangeCount s
      \<and> orderBooks s' = orderBooks s
      \<and> riskAssessments s' = riskAssessments s
      \<and> requestedHandles s' = requestedHandles s"
    if ok: "decryptAssessment e s rid cleartexts pf = Inr s'"
  proof -
    from decryptAssessment_Inr[OF ok] obtain a b c where
      nz: "requestToExchangeId_at s rid \<noteq> 0" and
      dec: "abi_decode_uint32s 3 cleartexts = Some [a, b, c]" and
      s': "s' = s\<lparr>decryptedAssessments := (decryptedAssessments s)(requestToExchangeId_at s rid \<mapsto>
               \<lparr> liquidityImpact = a, flashCrashRisk = b, marketInstability = c,
                 isRevealed = True \<rparr>),
             events := events s @ [AssessmentDecrypted (requestToExchangeId_at s rid)]\<rparr>"
      by blast
    have "requestToExchangeId s rid = Some (requestToExchangeId_at s rid)"
      using nz by (auto simp: requestToExchangeId_at_def split: option.splits)
    then show ?thesis using nz dec by (simp add: s')
  qed
  show ?thesis using 1 2 3 4 by blast
qed

theorem callback_keeps_request_entry_witness:
  "reachable requested_state
   \<and> requestToExchangeId requested_state 7 = Some 1
   \<and> \<not> isRevealed (decryptedAssessment_at requested_state 1)
   \<and> checkSignatures (env_of 99 0 True) 7 example_cleartexts []
   \<and> abi_decode_uint32s 3 example_cleartexts = Some [2, 100, 70]
   \<and> decryptAssessment (env_of 99 0 True) requested_state 7 example_cleartexts [] =
       Inr (requested_state\<lparr>decryptedAssessments := (decryptedAssessments requested_state)(1 \<mapsto>
               \<lparr> liquidityImpact = 2, flashCrashRisk = 100, marketInstability = 70,
                 isRevealed = True \<rparr>),
             events := events requested_state @ [AssessmentDecrypted 1]\<rparr>)
   \<and> decryptAssessment (env_of 99 0 True) requested_state 7 example_cleartexts [] = Inr revealed_state
   \<and> requestToExchangeId revealed_state = requestToExchangeId requested_state
   \<and> requestToExchangeId revealed_state 7 = Some 1"
proof -
  have a: "requestToExchangeId requested_state 7 = Some 1"
    and b: "\<not> isRevealed (decryptedAssessment_at requested_state 1)"
    by (simp_all add: requested_state_eq submitted_state_eq decryptedAssessment_at_def)
  have c: "checkSignatures (env_of 99 0 True) 7 example_cleartexts []"
    by (simp add: env_of_def)
  note w = callback_keeps_request_entry[where s = requested_state and rid = 7 and eid = 1
      and e = "env_of 99 0 True" and cleartexts = example_cleartexts and pf = "[]"
      and li = 2 and cr = 100 and ins = 70 and s' = revealed_state]
  note w1 = w[THEN conjunct1, THEN mp,
      OF conjI[OF reachable_requested conjI[OF a conjI[OF b conjI[OF c example_cleartexts_decode]]]]]
  note w4 = w[THEN conjunct2, THEN conjunct2, THEN conjunct2, THEN mp, OF callback_commits]
  have d: "requestToExchangeId_at requested_state 7 = 1"
    using a by (simp add: requestToExchangeId_at_def)
  have "requestToExchangeId revealed_state = requestToExchangeId requested_state"
    and "requestToExchangeId revealed_state 7 = Some 1"
    using w4 d a by simp_all
  then show ?thesis
    using reachable_requested a b c example_cleartexts_decode w1 callback_commits by blast
qed

text \<open>
  C7 as stated fails: in the example run, request id 7 still maps to exchange 1 after
  its valid first callback has revealed the assessment.
\<close>

theorem request_entry_survives_callback:
  "requestToExchangeId requested_state 7 = Some 1
   \<and> exec (env_of 99 0 True) requested_state (DecryptAssessment 7 example_cleartexts []) =
       Inr revealed_state
   \<and> isRevealed (decryptedAssessment_at revealed_state 1)
   \<and> requestToExchangeId revealed_state 7 = Some 1
   \<and> requestToExchangeId revealed_state 7 \<noteq> None"
  using callback_commits
  by (simp add: revealed_state_eq requested_state_eq decryptedAssessment_at_def)

text \<open>
  C8. A successful submission from a reachable state allocates the counter's successor:
  it is not zero, it is strictly greater than the id of every order book stored or
  announced before, and the announced ids stay strictly increasing. The counter starts
  at 0, so the first id handed out by \<open>registerExchange\<close> is 1, and a submission made
  while the counter is 0 is announced with id 1.
\<close>

theorem submission_ids_increase:
  assumes "reachable s" and "submitEncryptedOrderBook e s bid ask flow vol ex = Inr s'"
  shows "exchangeCount s' = exchangeCount s + 1
       \<and> exchangeCount s' \<noteq> 0
       \<and> exchangeCount s < exchangeCount s'
       \<and> submitted_ids (events s') = submitted_ids (events s) @ [exchangeCount s']
       \<and> orderBooks s' (exchangeCount s') \<noteq> None
       \<and> (\<forall>eid \<in> set (submitted_ids (events s)). eid \<noteq> 0 \<and> eid < exchangeCount s')
       \<and> (\<forall>eid \<in> dom (orderBooks s). eid \<noteq> 0 \<and> eid < exchangeCount s')
       \<and> sorted_wrt (<) (submitted_ids (events s'))
       \<and> 0 \<notin> set (submitted_ids (events s'))
       \<and> exchangeCount initial_state = 0
       \<and> registerExchange initial_state ex = Inr (initial_state\<lparr>exchangeCount := 1\<rparr>, 1)
       \<and> (exchangeCount s = 0 \<longrightarrow> submitted_ids (events s') = [1])"
proof -
  note c = consistentD[OF reachable_consistent[OF assms(1)]]
  note f = submit_Inr[OF assms(2)]
  note c' = consistentD[OF consistent_submit[OF reachable_consistent[OF assms(1)] assms(2)]]
  have ids: "submitted_ids (events s') = submitted_ids (events s) @ [exchangeCount s']"
    by (simp add: f(2,7) submitted_ids_append)
  have below: "eid \<noteq> 0 \<and> eid < exchangeCount s'" if "eid \<in> dom (orderBooks s)" for eid
    using c(4)[OF that] le_less_succ[OF f(1), of eid] by (simp add: f(2))
  have z: "0 \<notin> set (submitted_ids (events s'))"
    using c'(4)[of 0] by (auto simp: c'(1))
  have empty: "submitted_ids (events s) = []" if "exchangeCount s = 0"
  proof -
    have "card (dom (orderBooks s)) = 0" using c(3) that by simp
    moreover have "finite (dom (orderBooks s))" by (simp add: c(1)[symmetric])
    ultimately show ?thesis using c(1) by simp
  qed
  have 1: "exchangeCount s' \<noteq> 0" using succ_neq_0[OF f(1)] by (simp add: f(2))
  have 2: "exchangeCount s < exchangeCount s'" using less_succ[OF f(1)] by (simp add: f(2))
  have 3: "orderBooks s' (exchangeCount s') \<noteq> None" by (simp add: f(2,3))
  have 4: "\<forall>eid \<in> set (submitted_ids (events s)). eid \<noteq> 0 \<and> eid < exchangeCount s'"
    using below by (simp add: c(1))
  have 5: "registerExchange initial_state ex = Inr (initial_state\<lparr>exchangeCount := 1\<rparr>, 1)"
    by (simp add: registerExchange_def initial_state_def)
  have 6: "submitted_ids (events s') = [1]" if "exchangeCount s = 0"
    using empty[OF that] that by (simp add: ids f(2))
  have 7: "exchangeCount initial_state = 0" by (simp add: initial_state_def)
  show ?thesis
    using f(2) 1 2 ids 3 4 below c'(2) z 5 6 7 by blast
qed

theorem submission_ids_increase_witness:
  "reachable revealed_state
   \<and> submitEncryptedOrderBook (env_of 30 0 True) revealed_state (Handle 1) (Handle 2) (Handle 3)
        (Handle 4) 30 =
       Inr (transact (env_of 30 0 True) revealed_state
             (SubmitEncryptedOrderBook (Handle 1) (Handle 2) (Handle 3) (Handle 4) 30))
   \<and> submitted_ids (events revealed_state) = [1]
   \<and> submitted_ids (events (transact (env_of 30 0 True) revealed_state
        (SubmitEncryptedOrderBook (Handle 1) (Handle 2) (Handle 3) (Handle 4) 30))) = [1, 2]
   \<and> reachable initial_state
   \<and> submitted_ids (events submitted_state) = [1]"
proof -
  let ?s' = "transact (env_of 30 0 True) revealed_state
             (SubmitEncryptedOrderBook (Handle 1) (Handle 2) (Handle 3) (Handle 4) 30)"
  have c: "exchangeCount revealed_state = 1"
    by (simp add: revealed_state_eq requested_state_eq submitted_state_eq)
  have a: "submitEncryptedOrderBook (env_of 30 0 True) revealed_state (Handle 1) (Handle 2)
      (Handle 3) (Handle 4) 30 = Inr ?s'"
    by (simp add: transact_def submitEncryptedOrderBook_def registerExchange_def c Let_def)
  have i: "submitted_ids (events revealed_state) = [1]"
    by (simp add: revealed_state_eq)
  note w = submission_ids_increase[OF reachable_revealed a]
  from w have "exchangeCount ?s' = exchangeCount revealed_state + 1"
    and "submitted_ids (events ?s') = submitted_ids (events revealed_state) @ [exchangeCount ?s']"
    by blast+
  then have j: "submitted_ids (events ?s') = [1, 2]"
    by (simp add: c i)
  have k: "submitted_ids (events submitted_state) = [1]"
    by (simp add: submitted_state_eq)
  show ?thesis
    using reachable_revealed reachable_initial a i j k by blast
qed

text \<open>
  C9 (as amended). The contract has no rule of one pending request per exchange id.
  \<open>requestAssessmentDecryption\<close> succeeds exactly when the caller is the owner and the
  assessment is not revealed, whatever requests are outstanding; it adds the entry from
  the new request id to the exchange id and keeps every other entry, so several
  unresolved requests for one exchange id coexist. \<open>requestOrderBookDecryption\<close> adds
  no \<open>requestToExchangeId\<close> entry: apart from the handles the library saves, it leaves
  the state as it was. What holds is that at most one of the outstanding requests commits: after a
  successful callback for one request id of an exchange id, the callback for any other
  request id of the same exchange id reverts with AlreadyRevealed.
\<close>

theorem pending_requests_accumulate:
  "((\<exists>s' req. requestAssessmentDecryption e s eid = Inr (s', req)) \<longleftrightarrow>
      msg_sender e = exchange (orderBook_at s eid) \<and> \<not> isRevealed (decryptedAssessment_at s eid))
   \<and> (requestAssessmentDecryption e s eid = Inr (s', req) \<longrightarrow>
        requestToExchangeId s' = (requestToExchangeId s)(requestDecryption_id e \<mapsto> eid)
      \<and> (\<forall>rid. rid \<noteq> requestDecryption_id e \<longrightarrow>
            requestToExchangeId s' rid = requestToExchangeId s rid))
   \<and> (requestOrderBookDecryption e s eid = Inr (s'', req') \<longrightarrow>
        s'' = s\<lparr>requestedHandles := requestedHandles s''\<rparr>
      \<and> requestToExchangeId s'' = requestToExchangeId s)
   \<and> (requestToExchangeId s r1 = Some eid \<and> requestToExchangeId s r2 = Some eid
        \<and> decryptAssessment e1 s r1 c1 p1 = Inr s1 \<longrightarrow>
      decryptAssessment e2 s1 r2 c2 p2 = Inl AlreadyRevealed)"
proof -
  have 1: "(\<exists>s' req. requestAssessmentDecryption e s eid = Inr (s', req)) \<longleftrightarrow>
      msg_sender e = exchange (orderBook_at s eid) \<and> \<not> isRevealed (decryptedAssessment_at s eid)"
    by (simp add: requestAssessmentDecryption_def FHE_requestDecryption_def Let_def)
  have 2: "requestToExchangeId s' = (requestToExchangeId s)(requestDecryption_id e \<mapsto> eid)
      \<and> (\<forall>rid. rid \<noteq> requestDecryption_id e \<longrightarrow>
            requestToExchangeId s' rid = requestToExchangeId s rid)"
    if "requestAssessmentDecryption e s eid = Inr (s', req)"
    using requestAssessment_Inr(3)[OF that] by simp
  have 3: "s'' = s\<lparr>requestedHandles := requestedHandles s''\<rparr>
      \<and> requestToExchangeId s'' = requestToExchangeId s"
    if "requestOrderBookDecryption e s eid = Inr (s'', req')"
    using requestOrderBook_Inr[OF that] by simp
  have 4: "decryptAssessment e2 s1 r2 c2 p2 = Inl AlreadyRevealed"
    if a: "requestToExchangeId s r1 = Some eid" and b: "requestToExchangeId s r2 = Some eid"
      and c: "decryptAssessment e1 s r1 c1 p1 = Inr s1"
  proof -
    from decryptAssessment_Inr[OF c] obtain li cr ins where
      nz: "requestToExchangeId_at s r1 \<noteq> 0" and
      s1: "s1 = s\<lparr>decryptedAssessments := (decryptedAssessments s)(requestToExchangeId_at s r1 \<mapsto>
               \<lparr> liquidityImpact = li, flashCrashRisk = cr, marketInstability = ins,
                 isRevealed = True \<rparr>),
             events := events s @ [AssessmentDecrypted (requestToExchangeId_at s r1)]\<rparr>"
      by blast
    have e1: "requestToExchangeId_at s r1 = eid" using a by (simp add: requestToExchangeId_at_def)
    have x: "requestToExchangeId_at s1 r2 = eid"
      using b by (simp add: s1 requestToExchangeId_at_def)
    have y: "isRevealed (decryptedAssessment_at s1 eid)"
      by (simp add: s1 e1 decryptedAssessment_at_def)
    have "eid \<noteq> 0" using nz e1 by simp
    then show ?thesis
      by (simp add: decryptAssessment_def x y)
  qed
  show ?thesis using 1 2 3 4 by blast
qed

theorem pending_requests_accumulate_witness:
  "msg_sender (env_of 10 8 True) = exchange (orderBook_at requested_state 1)
   \<and> \<not> isRevealed (decryptedAssessment_at requested_state 1)
   \<and> requestToExchangeId requested_state 7 = Some 1
   \<and> requestAssessmentDecryption (env_of 10 8 True) requested_state 1 =
       Inr (requested_twice_state,
            \<lparr> request_id = 8,
              ciphertexts = [encryptedLiquidityImpact example_assessment,
                encryptedFlashCrashRisk example_assessment,
                encryptedMarketInstability example_assessment],
              callback = decryptAssessment_selector \<rparr>)
   \<and> requestToExchangeId requested_twice_state = (requestToExchangeId requested_state)(8 \<mapsto> 1)
   \<and> requestToExchangeId requested_twice_state 7 = Some 1
   \<and> requestToExchangeId requested_twice_state 8 = Some 1
   \<and> decryptAssessment (env_of 99 0 True) requested_twice_state 7 example_cleartexts [] =
       Inr (transact (env_of 99 0 True) requested_twice_state (DecryptAssessment 7 example_cleartexts []))
   \<and> decryptAssessment (env_of 99 0 True)
        (transact (env_of 99 0 True) requested_twice_state (DecryptAssessment 7 example_cleartexts []))
        8 example_cleartexts [] = Inl AlreadyRevealed"
proof -
  have o: "msg_sender (env_of 10 8 True) = exchange (orderBook_at requested_state 1)"
    "\<not> isRevealed (decryptedAssessment_at requested_state 1)"
    "requestToExchangeId requested_state 7 = Some 1"
    by (simp_all add: requested_state_eq submitted_state_eq env_of_def orderBook_at_def
        decryptedAssessment_at_def)
  have r: "requestToExchangeId requested_twice_state 7 = Some 1"
    "requestToExchangeId requested_twice_state 8 = Some 1"
    by (simp_all add: requested_twice_state_eq)
  note w = pending_requests_accumulate[where s = requested_twice_state and ?r1.0 = 7 and ?r2.0 = 8
      and eid = 1 and ?e1.0 = "env_of 99 0 True" and ?c1.0 = example_cleartexts and ?p1.0 = "[]"
      and ?s1.0 = "transact (env_of 99 0 True) requested_twice_state (DecryptAssessment 7 example_cleartexts [])"
      and ?e2.0 = "env_of 99 0 True" and ?c2.0 = example_cleartexts and ?p2.0 = "[]"]
  note w4 = w[THEN conjunct2, THEN conjunct2, THEN conjunct2, THEN mp,
      OF conjI[OF r(1) conjI[OF r(2) first_callback_of_two]]]
  have i: "requestDecryption_id (env_of 10 8 True) = 8" by (simp add: env_of_def)
  note w2 = pending_requests_accumulate[where s = requested_state and e = "env_of 10 8 True"
      and eid = 1 and s' = requested_twice_state, THEN conjunct2, THEN conjunct1, THEN mp,
      OF second_request_example, THEN conjunct1, unfolded i]
  show ?thesis
    using o r second_request_example first_callback_of_two w2 w4 by blast
qed

text \<open>
  C9 as stated fails: in the example run the owner's second request (id 8) is accepted
  while request 7 is outstanding, and afterwards both ids map to exchange 1, which is
  not revealed.
\<close>

theorem two_requests_outstanding:
  "requestToExchangeId requested_state 7 = Some 1
   \<and> exec (env_of 10 8 True) requested_state (RequestAssessmentDecryption 1) =
       Inr requested_twice_state
   \<and> requestToExchangeId requested_twice_state 7 = Some 1
   \<and> requestToExchangeId requested_twice_state 8 = Some 1
   \<and> \<not> isRevealed (decryptedAssessment_at requested_twice_state 1)"
  using second_request_example
  by (simp add: requested_twice_state_eq requested_state_eq submitted_state_eq
      decryptedAssessment_at_def)

text \<open>
  C10. Below the largest \<open>uint256\<close>, \<open>registerExchange\<close> succeeds for every caller and
  every address argument, adds exactly 1 to \<open>exchangeCount\<close>, returns the new value
  and leaves the four tables as they were. From a reachable state the id it returned
  has no OrderBook, and no later sequence of transactions gives it one; a submission
  that follows gets the id after it, which is greater than the number of stored
  OrderBooks.
\<close>

theorem registerExchange_only_counts:
  assumes "exchangeCount s \<noteq> - 1"
  shows "registerExchange s ex = Inr (s\<lparr>exchangeCount := exchangeCount s + 1\<rparr>, exchangeCount s + 1)
       \<and> transact e s (RegisterExchange ex) = s\<lparr>exchangeCount := exchangeCount s + 1\<rparr>
       \<and> unat (exchangeCount (transact e s (RegisterExchange ex))) = unat (exchangeCount s) + 1
       \<and> orderBooks (transact e s (RegisterExchange ex)) = orderBooks s
       \<and> riskAssessments (transact e s (RegisterExchange ex)) = riskAssessments s
       \<and> decryptedAssessments (transact e s (RegisterExchange ex)) = decryptedAssessments s
       \<and> requestToExchangeId (transact e s (RegisterExchange ex)) = requestToExchangeId s
       \<and> (reachable s \<longrightarrow>
            orderBooks (run (transact e s (RegisterExchange ex)) tr) (exchangeCount s + 1) = None
          \<and> (submitEncryptedOrderBook e2 (transact e s (RegisterExchange ex)) bid ask flow vol ex2
                = Inr s2 \<longrightarrow>
              orderBooks s2 (exchangeCount s2) \<noteq> None
            \<and> exchangeCount s2 = exchangeCount s + 2
            \<and> card (dom (orderBooks s2)) < unat (exchangeCount s2)))"
proof -
  let ?s1 = "s\<lparr>exchangeCount := exchangeCount s + 1\<rparr>"
  have 1: "registerExchange s ex = Inr (?s1, exchangeCount s + 1)"
    using assms by (simp add: registerExchange_def Let_def)
  then have 2: "transact e s (RegisterExchange ex) = ?s1"
    by (simp add: transact_def)
  have 3: "unat (exchangeCount ?s1) = unat (exchangeCount s) + 1"
    by (simp add: unat_succ[OF assms])
  have never: "orderBooks (run ?s1 tr) (exchangeCount s + 1) = None" if r: "reachable s"
  proof -
    have "exchangeCount s + 1 \<notin> dom (orderBooks s)"
    proof
      assume "exchangeCount s + 1 \<in> dom (orderBooks s)"
      then have "exchangeCount s + 1 \<le> exchangeCount s"
        using consistentD(4)[OF reachable_consistent[OF r]] by blast
      then show False using less_succ[OF assms] by simp
    qed
    then show ?thesis
      using run_orderBooks_frozen[of "exchangeCount s + 1" ?s1 tr] by auto
  qed
  have later: "orderBooks s2 (exchangeCount s2) \<noteq> None
            \<and> exchangeCount s2 = exchangeCount s + 2
            \<and> card (dom (orderBooks s2)) < unat (exchangeCount s2)"
    if r: "reachable s" and sub: "submitEncryptedOrderBook e2 ?s1 bid ask flow vol ex2 = Inr s2"
  proof -
    note f = submit_Inr[OF sub]
    have c: "card (dom (orderBooks s)) \<le> unat (exchangeCount s)"
      by (rule consistentD(3)[OF reachable_consistent[OF r]])
    have fin: "finite (dom (orderBooks s))"
      using consistentD(1)[OF reachable_consistent[OF r]] by (metis List.finite_set)
    have n: "exchangeCount s + 1 \<noteq> - 1" using f(1) by simp
    have u: "unat (exchangeCount s2) = unat (exchangeCount s) + 2"
      using unat_succ[OF n] unat_succ[OF assms] f(2) by simp
    have "card (dom (orderBooks s2)) \<le> card (dom (orderBooks s)) + 1"
      using fin f(3) by (simp add: card_insert_if)
    then have "card (dom (orderBooks s2)) < unat (exchangeCount s2)"
      using c u by simp
    moreover have "exchangeCount s2 = exchangeCount s + 2" using f(2) by simp
    moreover have "orderBooks s2 (exchangeCount s2) \<noteq> None" using f(2,3) by simp
    ultimately show ?thesis by simp
  qed
  have frame: "orderBooks ?s1 = orderBooks s \<and> riskAssessments ?s1 = riskAssessments s
      \<and> decryptedAssessments ?s1 = decryptedAssessments s
      \<and> requestToExchangeId ?s1 = requestToExchangeId s"
    by simp
  show ?thesis
    unfolding 2 using 1 3 frame never later by blast
qed

theorem registerExchange_only_counts_witness:
  "exchangeCount submitted_state \<noteq> - 1
   \<and> registerExchange submitted_state 77 = Inr (submitted_state\<lparr>exchangeCount := 2\<rparr>, 2)
   \<and> orderBooks (transact (env_of 20 0 True) submitted_state (RegisterExchange 77)) =
       orderBooks submitted_state
   \<and> reachable submitted_state
   \<and> orderBooks (run (transact (env_of 20 0 True) submitted_state (RegisterExchange 77))
        [(env_of 10 0 True, SubmitEncryptedOrderBook (Handle 1) (Handle 2) (Handle 3) (Handle 4) 10)])
        2 = None
   \<and> submitEncryptedOrderBook (env_of 10 0 True)
        (transact (env_of 20 0 True) submitted_state (RegisterExchange 77))
        (Handle 1) (Handle 2) (Handle 3) (Handle 4) 10 =
       Inr (run submitted_state
        [(env_of 20 0 True, RegisterExchange 77),
         (env_of 10 0 True, SubmitEncryptedOrderBook (Handle 1) (Handle 2) (Handle 3) (Handle 4) 10)])
   \<and> exchangeCount (run submitted_state
        [(env_of 20 0 True, RegisterExchange 77),
         (env_of 10 0 True, SubmitEncryptedOrderBook (Handle 1) (Handle 2) (Handle 3) (Handle 4) 10)])
       = 3
   \<and> card (dom (orderBooks (run submitted_state
        [(env_of 20 0 True, RegisterExchange 77),
         (env_of 10 0 True, SubmitEncryptedOrderBook (Handle 1) (Handle 2) (Handle 3) (Handle 4) 10)])))
       < unat (exchangeCount (run submitted_state
        [(env_of 20 0 True, RegisterExchange 77),
         (env_of 10 0 True, SubmitEncryptedOrderBook (Handle 1) (Handle 2) (Handle 3) (Handle 4) 10)]))"
proof -
  let ?s1 = "transact (env_of 20 0 True) submitted_state (RegisterExchange 77)"
  let ?s2 = "run submitted_state
        [(env_of 20 0 True, RegisterExchange 77),
         (env_of 10 0 True, SubmitEncryptedOrderBook (Handle 1) (Handle 2) (Handle 3) (Handle 4) 10)]"
  have c: "exchangeCount submitted_state = 1" by (simp add: submitted_state_eq)
  then have a: "exchangeCount submitted_state \<noteq> - 1" by simp
  have two: "exchangeCount submitted_state + 1 = 2" by (simp add: c)
  have three: "exchangeCount submitted_state + 2 = 3" by (simp add: c)
  have s1: "?s1 = submitted_state\<lparr>exchangeCount := 2\<rparr>"
    by (simp add: transact_def registerExchange_def c)
  have sub: "submitEncryptedOrderBook (env_of 10 0 True) ?s1
        (Handle 1) (Handle 2) (Handle 3) (Handle 4) 10 = Inr ?s2"
    by (simp add: s1 transact_def submitEncryptedOrderBook_def registerExchange_def c Let_def)
  note w = registerExchange_only_counts[OF a, of 77 "env_of 20 0 True"
      "[(env_of 10 0 True, SubmitEncryptedOrderBook (Handle 1) (Handle 2) (Handle 3) (Handle 4) 10)]"
      "env_of 10 0 True" "Handle 1" "Handle 2" "Handle 3" "Handle 4" 10 ?s2,
      unfolded two three]
  note w1 = w[THEN conjunct1]
  note w4 = w[THEN conjunct2, THEN conjunct2, THEN conjunct2, THEN conjunct1]
  note w8 = w[THEN conjunct2, THEN conjunct2, THEN conjunct2, THEN conjunct2, THEN conjunct2,
      THEN conjunct2, THEN conjunct2, THEN mp, OF reachable_submitted]
  note w9 = w8[THEN conjunct2, THEN mp, OF sub]
  show ?thesis
    using w1 w4 w8[THEN conjunct1] w9 sub reachable_submitted a by blast
qed

end
